theory Spec2Isabelle
  imports Main "HOL-Library.Sublist" "HOL-Library.Monad_Syntax"
begin

section \<open>Python strings\<close>

text \<open>
  Source text is a Python \<open>str\<close>; it is modelled as a \<open>string\<close> whose characters are the
  code points 0 to 255.  The classifications below are those of Python 3 on that range
  (\<open>str.isalnum\<close>, \<open>str.isspace\<close>, \<open>str.lower\<close>; the regular expression classes
  \<open>\w\<close>, \<open>\s\<close> and \<open>\d\<close> of a \<open>str\<close> pattern agree with them).  Positions are
  natural numbers; a Python function that returns \<open>-1\<close> for "not found" returns \<open>None\<close>.

  A read \<open>s[i]\<close> that the source guards by a comparison with the length in the same
  condition is written \<open>s ! i\<close> under that comparison.  Every other read or index goes
  through a checked accessor that fails with \<open>IndexError\<close>, as Python does.
\<close>

datatype py_error = IndexError

abbreviation NL :: char where "NL \<equiv> CHR 0x0A"
abbreviation TAB :: char where "TAB \<equiv> CHR 0x09"
abbreviation CR :: char where "CR \<equiv> CHR 0x0D"
abbreviation SQ :: char where "SQ \<equiv> CHR 0x27"
abbreviation BQ :: char where "BQ \<equiv> CHR 0x60"
abbreviation DQ :: char where "DQ \<equiv> CHR 0x22"

definition py_isalnum :: "char \<Rightarrow> bool" where
  "py_isalnum c =
     (let k = (of_char c :: nat) in
        (48 \<le> k \<and> k \<le> 57) \<or> (65 \<le> k \<and> k \<le> 90) \<or> (97 \<le> k \<and> k \<le> 122) \<or>
        k = 170 \<or> (178 \<le> k \<and> k \<le> 179) \<or> k = 181 \<or> (185 \<le> k \<and> k \<le> 186) \<or>
        (188 \<le> k \<and> k \<le> 190) \<or> (192 \<le> k \<and> k \<le> 214) \<or> (216 \<le> k \<and> k \<le> 246) \<or>
        248 \<le> k)"

definition py_isspace :: "char \<Rightarrow> bool" where
  "py_isspace c =
     (let k = (of_char c :: nat) in (9 \<le> k \<and> k \<le> 13) \<or> (28 \<le> k \<and> k \<le> 32) \<or> k = 133 \<or> k = 160)"

definition py_isdigit :: "char \<Rightarrow> bool" where
  "py_isdigit c = (let k = (of_char c :: nat) in 48 \<le> k \<and> k \<le> 57)"

definition ascii_letter_or_underscore :: "char \<Rightarrow> bool" where
  "ascii_letter_or_underscore c =
     (let k = (of_char c :: nat) in (65 \<le> k \<and> k \<le> 90) \<or> (97 \<le> k \<and> k \<le> 122) \<or> k = 95)"

definition py_lower_char :: "char \<Rightarrow> char" where
  "py_lower_char c =
     (let k = (of_char c :: nat) in
        if (65 \<le> k \<and> k \<le> 90) \<or> (192 \<le> k \<and> k \<le> 222 \<and> k \<noteq> 215) then char_of (k + 32) else c)"

text \<open>
  The same classifications as decisions on the eight bits of a character, proved equal
  to the definitions above; evaluation uses these equations.
\<close>

lemma py_isalnum_code [code]:
  "py_isalnum (Char b0 b1 b2 b3 b4 b5 b6 b7) =
     (if b7 then (if b6 then (if b5 then (\<not> b4 \<or> (b3 \<or> (\<not> b2 \<or> (\<not>
     b1 \<or> \<not> b0)))) else (\<not> b4 \<or> (b3 \<or> (\<not> b2 \<or> (\<not> b1 \<or>
     \<not> b0))))) else (b5 \<and> (if b4 then (if b3 then (if b2 then (\<not> b1 \<or>
     \<not> b0) else (if b1 then \<not> b0 else b0)) else (if b2 then (\<not> b1 \<and> b0)
     else b1)) else (b3 \<and> (\<not> b2 \<and> (b1 \<and> \<not> b0)))))) else (if b6 then
     (if b5 then (if b4 then (\<not> b3 \<or> (\<not> b2 \<and> (\<not> b1 \<or> \<not> b0)))
     else (b3 \<or> (b2 \<or> (b1 \<or> b0)))) else (if b4 then (\<not> b3 \<or> (\<not> b2
     \<and> (\<not> b1 \<or> \<not> b0))) else (b3 \<or> (b2 \<or> (b1 \<or> b0))))) else (b5
     \<and> (b4 \<and> (\<not> b3 \<or> (\<not> b2 \<and> \<not> b1))))))"
  by (cases b0; cases b1; cases b2; cases b3; cases b4; cases b5; cases b6; cases b7;
      simp add: py_isalnum_def)

lemma py_isspace_code [code]:
  "py_isspace (Char b0 b1 b2 b3 b4 b5 b6 b7) =
     (if b7 then (\<not> b6 \<and> (if b5 then (\<not> b4 \<and> (\<not> b3 \<and> (\<not> b2
     \<and> (\<not> b1 \<and> \<not> b0)))) else (\<not> b4 \<and> (\<not> b3 \<and> (b2
     \<and> (\<not> b1 \<and> b0)))))) else (\<not> b6 \<and> (if b5 then (\<not> b4 \<and>
     (\<not> b3 \<and> (\<not> b2 \<and> (\<not> b1 \<and> \<not> b0)))) else (if b4 then (b3
     \<and> b2) else (b3 \<and> (if b2 then \<not> b1 else (b1 \<or> b0)))))))"
  by (cases b0; cases b1; cases b2; cases b3; cases b4; cases b5; cases b6; cases b7;
      simp add: py_isspace_def)

lemma py_isdigit_code [code]:
  "py_isdigit (Char b0 b1 b2 b3 b4 b5 b6 b7) =
     (\<not> b7 \<and> (\<not> b6 \<and> (b5 \<and> (b4 \<and> (\<not> b3 \<or> (\<not> b2
     \<and> \<not> b1))))))"
  by (cases b0; cases b1; cases b2; cases b3; cases b4; cases b5; cases b6; cases b7;
      simp add: py_isdigit_def)

lemma ascii_letter_or_underscore_code [code]:
  "ascii_letter_or_underscore (Char b0 b1 b2 b3 b4 b5 b6 b7) =
     (\<not> b7 \<and> (b6 \<and> (if b5 then (if b4 then (\<not> b3 \<or> (\<not> b2 \<and>
     (\<not> b1 \<or> \<not> b0))) else (b3 \<or> (b2 \<or> (b1 \<or> b0)))) else (if b4 then
     (\<not> b3 \<or> (if b2 then (b1 \<and> b0) else (\<not> b1 \<or> \<not> b0))) else (b3
     \<or> (b2 \<or> (b1 \<or> b0)))))))"
  by (cases b0; cases b1; cases b2; cases b3; cases b4; cases b5; cases b6; cases b7;
      simp add: ascii_letter_or_underscore_def)

lemma py_lower_char_code [code]:
  "py_lower_char (Char b0 b1 b2 b3 b4 b5 b6 b7) =
     (if (if b7 then (b6 \<and> (\<not> b5 \<and> (\<not> b4 \<or> (if b3 then (\<not> b2 \<or>
         (\<not> b1 \<or> \<not> b0)) else (\<not> b2 \<or> (\<not> b1 \<or> \<not> b0)))))) else
         (b6 \<and> (\<not> b5 \<and> (if b4 then (\<not> b3 \<or> (\<not> b2 \<and> (\<not> b1
         \<or> \<not> b0))) else (b3 \<or> (b2 \<or> (b1 \<or> b0)))))))
      then Char b0 b1 b2 b3 b4 True b6 b7 else Char b0 b1 b2 b3 b4 b5 b6 b7)"
  by (cases b0; cases b1; cases b2; cases b3; cases b4; cases b5; cases b6; cases b7;
      (simp add: py_lower_char_def; code_simp)?)

definition py_lower :: "string \<Rightarrow> string" where
  "py_lower s = map py_lower_char s"

text \<open>\<open>s[a:b]\<close> for non-negative \<open>a\<close> and \<open>b\<close>; Python clips both ends and never raises.\<close>

definition slice :: "string \<Rightarrow> nat \<Rightarrow> nat \<Rightarrow> string" where
  "slice s a b = take (b - a) (drop a s)"

definition py_idx :: "'a list \<Rightarrow> nat \<Rightarrow> py_error + 'a" where
  "py_idx xs i = (if i < length xs then Inr (xs ! i) else Inl IndexError)"

fun index_of :: "char \<Rightarrow> string \<Rightarrow> nat option" where
  "index_of c [] = None"
| "index_of c (x # xs) = (if x = c then Some 0 else map_option Suc (index_of c xs))"

text \<open>\<open>s.find(c, i)\<close> and \<open>s.rfind(c, 0, e)\<close> for a one-character needle.\<close>

definition py_find :: "string \<Rightarrow> char \<Rightarrow> nat \<Rightarrow> nat option" where
  "py_find s c i = map_option (\<lambda>k. i + k) (index_of c (drop i s))"

definition py_rfind :: "string \<Rightarrow> char \<Rightarrow> nat \<Rightarrow> nat option" where
  "py_rfind s c e =
     map_option (\<lambda>k. length (take e s) - 1 - k) (index_of c (rev (take e s)))"

definition py_lstrip :: "string \<Rightarrow> string" where
  "py_lstrip s = dropWhile py_isspace s"

definition py_rstrip :: "string \<Rightarrow> string" where
  "py_rstrip s = rev (dropWhile py_isspace (rev s))"

definition py_strip :: "string \<Rightarrow> string" where
  "py_strip s = py_lstrip (py_rstrip s)"

text \<open>\<open>s.split()\<close>: the maximal runs of characters that are not white space.\<close>

fun split_ws :: "string \<Rightarrow> string \<Rightarrow> string list" where
  "split_ws cur [] = (if cur = [] then [] else [cur])"
| "split_ws cur (c # cs) =
     (if py_isspace c then (if cur = [] then split_ws [] cs else cur # split_ws [] cs)
      else split_ws (cur @ [c]) cs)"

definition py_split :: "string \<Rightarrow> string list" where
  "py_split s = split_ws [] s"

text \<open>\<open>s.split(sep)\<close> for a one-character separator: empty pieces are kept.\<close>

fun split_on :: "char \<Rightarrow> string \<Rightarrow> string \<Rightarrow> string list" where
  "split_on sep cur [] = [cur]"
| "split_on sep cur (c # cs) =
     (if c = sep then cur # split_on sep [] cs else split_on sep (cur @ [c]) cs)"

definition py_split_on :: "char \<Rightarrow> string \<Rightarrow> string list" where
  "py_split_on sep s = split_on sep [] s"

definition py_startswith :: "string \<Rightarrow> string \<Rightarrow> bool" where
  "py_startswith s p = (take (length p) s = p)"

definition py_endswith :: "string \<Rightarrow> string \<Rightarrow> bool" where
  "py_endswith s p = (length p \<le> length s \<and> drop (length s - length p) s = p)"

text \<open>The loop \<open>while i < len(s) and P(s[i]): i += 1\<close>.\<close>

function skip_while :: "(char \<Rightarrow> bool) \<Rightarrow> string \<Rightarrow> nat \<Rightarrow> nat" where
  "skip_while P s i = (if i < length s \<and> P (s ! i) then skip_while P s (i + 1) else i)"
  by pat_completeness auto
termination
  by (relation "measure (\<lambda>(P, s, i). length s - i)") auto

declare skip_while.simps [simp del]

lemma skip_while_ge: "i \<le> skip_while P s i"
proof (induction P s i rule: skip_while.induct)
  case (1 P s i)
  then show ?case by (subst skip_while.simps) (auto simp: Suc_leD)
qed

lemma skip_while_le: "i \<le> length s \<Longrightarrow> skip_while P s i \<le> length s"
proof (induction P s i rule: skip_while.induct)
  case (1 P s i)
  then show ?case by (subst skip_while.simps) auto
qed

lemma skip_while_gt: "i < length s \<Longrightarrow> P (s ! i) \<Longrightarrow> i < skip_while P s i"
  using skip_while_ge [of "i + 1" P s] by (subst skip_while.simps) auto

section \<open>Regular expression pieces\<close>

text \<open>
  Each regular expression of the source is translated by hand into a matcher that
  returns the end of the match that Python's backtracking engine finds at a given start,
  or \<open>None\<close>.  The pieces: \<open>\b\<close>, a literal under \<open>(?i)\<close>, \<open>\s+\<close>, \<open>\s*\<close>, \<open>\d+\<close>
  and the identifier \<open>[A-Za-z_]\w*\<close>.  The repetitions are greedy; in every pattern of
  the source the piece after a repetition cannot start with a character of the repeated
  class, so giving characters back never turns a failure into a match.
\<close>

definition is_word_char :: "char \<Rightarrow> bool" where
  "is_word_char c = (py_isalnum c \<or> c = CHR ''_'')"

definition re_wb :: "string \<Rightarrow> nat \<Rightarrow> bool" where
  "re_wb s i =
     ((0 < i \<and> i \<le> length s \<and> is_word_char (s ! (i - 1))) \<noteq> (i < length s \<and> is_word_char (s ! i)))"

definition re_lit_ci :: "string \<Rightarrow> string \<Rightarrow> nat \<Rightarrow> nat option" where
  "re_lit_ci kw s i =
     (if i + length kw \<le> length s \<and> py_lower (slice s i (i + length kw)) = py_lower kw
      then Some (i + length kw) else None)"

definition re_ws_star :: "string \<Rightarrow> nat \<Rightarrow> nat" where
  "re_ws_star s i = skip_while py_isspace s i"

definition re_ws_plus :: "string \<Rightarrow> nat \<Rightarrow> nat option" where
  "re_ws_plus s i = (if i < length s \<and> py_isspace (s ! i) then Some (skip_while py_isspace s i) else None)"

definition re_digits_plus :: "string \<Rightarrow> nat \<Rightarrow> nat option" where
  "re_digits_plus s i = (if i < length s \<and> py_isdigit (s ! i) then Some (skip_while py_isdigit s i) else None)"

definition re_ident :: "string \<Rightarrow> nat \<Rightarrow> nat option" where
  "re_ident s i =
     (if i < length s \<and> ascii_letter_or_underscore (s ! i)
      then Some (skip_while is_word_char s (i + 1)) else None)"

definition re_char :: "char \<Rightarrow> string \<Rightarrow> nat \<Rightarrow> nat option" where
  "re_char c s i = (if i < length s \<and> s ! i = c then Some (i + 1) else None)"

definition re_guard :: "bool \<Rightarrow> unit option" where
  "re_guard b = (if b then Some () else None)"

text \<open>\<open>\bkw\b\<close> under \<open>(?i)\<close>.\<close>

definition re_word :: "string \<Rightarrow> string \<Rightarrow> nat \<Rightarrow> nat option" where
  "re_word kw s i = do { _ \<leftarrow> re_guard (re_wb s i); e \<leftarrow> re_lit_ci kw s i; _ \<leftarrow> re_guard (re_wb s e); Some e }"

text \<open>\<open>pattern.search(s, start)\<close>: the leftmost start at which the matcher succeeds.\<close>

fun re_search_in :: "(nat \<Rightarrow> 'a option) \<Rightarrow> nat list \<Rightarrow> (nat \<times> 'a) option" where
  "re_search_in m [] = None"
| "re_search_in m (i # is) = (case m i of Some e \<Rightarrow> Some (i, e) | None \<Rightarrow> re_search_in m is)"

definition re_search :: "(string \<Rightarrow> nat \<Rightarrow> 'a option) \<Rightarrow> string \<Rightarrow> nat \<Rightarrow> (nat \<times> 'a) option" where
  "re_search m s start = re_search_in (m s) [start..<Suc (length s)]"

text \<open>
  \<open>pattern.sub('', s)\<close> for a pattern that matches no empty string: every match, found
  left to right on the text that follows the previous one, is deleted.
\<close>

function re_delete_all :: "(string \<Rightarrow> nat \<Rightarrow> nat option) \<Rightarrow> string \<Rightarrow> nat \<Rightarrow> string" where
  "re_delete_all m s i =
     (if i < length s then
        (case m s i of
           Some e \<Rightarrow> if i < e then re_delete_all m s e else s ! i # re_delete_all m s (i + 1)
         | None \<Rightarrow> s ! i # re_delete_all m s (i + 1))
      else [])"
  by pat_completeness auto
termination
  by (relation "measure (\<lambda>(m, s, i). length s - i)") auto

declare re_delete_all.simps [simp del]

section \<open>Scanner primitives shared by the four modules\<close>

text \<open>
  \<open>is_word_char\<close> and \<open>match_kw_at\<close> are defined with the same text in \<open>select.py\<close>,
  \<open>sort.py\<close>, \<open>orderby.py\<close> and \<open>read_statement.py\<close>.
\<close>

definition match_kw_at :: "string \<Rightarrow> nat \<Rightarrow> string \<Rightarrow> bool" where
  "match_kw_at s i kw =
     (let n = length kw in
        if i + n > length s then False
        else if py_lower (slice s i (i + n)) \<noteq> py_lower kw then False
        else (i = 0 \<or> \<not> is_word_char (s ! (i - 1))) \<and> (i + n = length s \<or> \<not> is_word_char (s ! (i + n))))"

definition is_ws4 :: "char \<Rightarrow> bool" where
  "is_ws4 c = (c = CHR '' '' \<or> c = TAB \<or> c = CR \<or> c = NL)"

definition is_blank :: "char \<Rightarrow> bool" where
  "is_blank c = (c = CHR '' '' \<or> c = TAB)"

definition not_newline :: "char \<Rightarrow> bool" where
  "not_newline c = (c \<noteq> NL)"

lemma skip_not_newline_gt: "i < length s \<Longrightarrow> s ! i \<noteq> NL \<Longrightarrow> i < skip_while not_newline s i"
  by (rule skip_while_gt) (auto simp: not_newline_def)

section \<open>select.py: the Bounded-Lookup pass\<close>

text \<open>\<open>skip_ws_and_comments\<close> of \<open>select.py\<close>.\<close>

function skip_ws_and_comments :: "string \<Rightarrow> nat \<Rightarrow> nat" where
  "skip_ws_and_comments s i0 =
     (if i0 < length s then
        (let i = skip_while is_ws4 s i0 in
           if i \<ge> length s then i
           else if s ! i = CHR ''*'' \<and> (i = 0 \<or> s ! (i - 1) = NL)
             then skip_ws_and_comments s (skip_while not_newline s i)
           else if s ! i = DQ then skip_ws_and_comments s (skip_while not_newline s i)
           else i)
      else i0)"
  by pat_completeness auto
termination
proof (relation "measure (\<lambda>(s, i). length s - i)", goal_cases)
  case 1
  show ?case by simp
next
  case (2 s i0 i)
  have "i0 \<le> i" using 2 by (simp add: skip_while_ge)
  moreover have "i < skip_while not_newline s i" using 2 by (intro skip_not_newline_gt) auto
  ultimately show ?case using 2 by simp
next
  case (3 s i0 i)
  have "i0 \<le> i" using 3 by (simp add: skip_while_ge)
  moreover have "i < skip_while not_newline s i" using 3 by (intro skip_not_newline_gt) auto
  ultimately show ?case using 3 by simp
qed

declare skip_ws_and_comments.simps [simp del]

text \<open>
  \<open>find_statement_period\<close> of \<open>select.py\<close>.  The three flags are the source's \<open>in_sq\<close>,
  \<open>in_bt\<close> and \<open>in_tpl\<close>; the last branch is the one for \<open>in_tpl\<close>, the only flag that
  can be set there.
\<close>

function select_period_loop :: "string \<Rightarrow> nat \<Rightarrow> bool \<Rightarrow> bool \<Rightarrow> bool \<Rightarrow> nat option" where
  "select_period_loop s i in_sq in_bt in_tpl =
     (if i < length s then
        (let c = s ! i in
           if \<not> (in_sq \<or> in_bt \<or> in_tpl) then
             (if c = DQ then select_period_loop s (skip_while not_newline s i) in_sq in_bt in_tpl
              else if c = CHR ''*'' \<and> (i = 0 \<or> s ! (i - 1) = NL)
                then select_period_loop s (skip_while not_newline s i) in_sq in_bt in_tpl
              else if c = SQ then select_period_loop s (i + 1) True in_bt in_tpl
              else if c = BQ then select_period_loop s (i + 1) in_sq True in_tpl
              else if c = CHR ''|'' then select_period_loop s (i + 1) in_sq in_bt True
              else if c = CHR ''.'' then Some i
              else select_period_loop s (i + 1) in_sq in_bt in_tpl)
           else if in_sq then
             (if c = SQ then
                (if i + 1 < length s \<and> s ! (i + 1) = SQ then select_period_loop s (i + 2) in_sq in_bt in_tpl
                 else select_period_loop s (i + 1) False in_bt in_tpl)
              else select_period_loop s (i + 1) in_sq in_bt in_tpl)
           else if in_bt then
             (if c = BQ then
                (if i + 1 < length s \<and> s ! (i + 1) = BQ then select_period_loop s (i + 2) in_sq in_bt in_tpl
                 else select_period_loop s (i + 1) in_sq False in_tpl)
              else select_period_loop s (i + 1) in_sq in_bt in_tpl)
           else
             (if c = CHR ''|'' then
                (if i + 1 < length s \<and> s ! (i + 1) = CHR ''|'' then select_period_loop s (i + 2) in_sq in_bt in_tpl
                 else select_period_loop s (i + 1) in_sq in_bt False)
              else select_period_loop s (i + 1) in_sq in_bt in_tpl))
      else None)"
  by pat_completeness auto
termination
  by (relation "measure (\<lambda>(s, i, a, b, c). length s - i)")
     (auto intro!: diff_less_mono2 skip_not_newline_gt)

declare select_period_loop.simps [simp del]

definition select_find_statement_period :: "string \<Rightarrow> nat \<Rightarrow> nat option" where
  "select_find_statement_period s start = select_period_loop s start False False False"

text \<open>
  \<open>find_kw\<close> of \<open>select.py\<close>.  This copy never sets a flag, so its three string branches
  are never taken and a keyword inside a string is found like any other.
\<close>

function select_find_kw_loop :: "string \<Rightarrow> string \<Rightarrow> nat \<Rightarrow> bool \<Rightarrow> bool \<Rightarrow> bool \<Rightarrow> nat option" where
  "select_find_kw_loop s kw i in_sq in_bt in_tpl =
     (if i < length s then
        (let c = s ! i in
           if \<not> (in_sq \<or> in_bt \<or> in_tpl) then
             (if c = DQ then select_find_kw_loop s kw (skip_while not_newline s i + 1) in_sq in_bt in_tpl
              else if c = CHR ''*'' \<and> (i = 0 \<or> s ! (i - 1) = NL)
                then select_find_kw_loop s kw (skip_while not_newline s i + 1) in_sq in_bt in_tpl
              else if match_kw_at s i kw then Some i
              else select_find_kw_loop s kw (i + 1) in_sq in_bt in_tpl)
           else if in_sq then
             (if c = SQ then
                (if i + 1 < length s \<and> s ! (i + 1) = SQ then select_find_kw_loop s kw (i + 2) in_sq in_bt in_tpl
                 else select_find_kw_loop s kw (i + 1) False in_bt in_tpl)
              else select_find_kw_loop s kw (i + 1) in_sq in_bt in_tpl)
           else if in_bt then
             (if c = BQ then
                (if i + 1 < length s \<and> s ! (i + 1) = BQ then select_find_kw_loop s kw (i + 2) in_sq in_bt in_tpl
                 else select_find_kw_loop s kw (i + 1) in_sq False in_tpl)
              else select_find_kw_loop s kw (i + 1) in_sq in_bt in_tpl)
           else
             (if c = CHR ''|'' then
                (if i + 1 < length s \<and> s ! (i + 1) = CHR ''|'' then select_find_kw_loop s kw (i + 2) in_sq in_bt in_tpl
                 else select_find_kw_loop s kw (i + 1) in_sq in_bt False)
              else select_find_kw_loop s kw (i + 1) in_sq in_bt in_tpl))
      else None)"
  by pat_completeness auto
termination
  by (relation "measure (\<lambda>(s, kw, i, a, b, c). length s - i)")
     (auto intro!: diff_less_mono2 simp: less_Suc_eq_le skip_while_ge)

declare select_find_kw_loop.simps [simp del]

definition select_find_kw :: "string \<Rightarrow> string \<Rightarrow> nat \<Rightarrow> nat option" where
  "select_find_kw s kw start = select_find_kw_loop s kw start False False False"

text \<open>
  \<open>find_next_any_kw\<close> (\<open>select.py\<close> and \<open>orderby.py\<close>, each over its own \<open>find_kw\<close>):
  the earliest keyword wins, and among equal positions the first in the list.
\<close>

fun find_next_any_kw_loop ::
  "(string \<Rightarrow> string \<Rightarrow> nat \<Rightarrow> nat option) \<Rightarrow> string \<Rightarrow> string list \<Rightarrow> nat \<Rightarrow>
   (nat \<times> string) option \<Rightarrow> (nat \<times> string) option" where
  "find_next_any_kw_loop fk s [] start best = best"
| "find_next_any_kw_loop fk s (kw # kws) start best =
     (case fk s kw start of
        None \<Rightarrow> find_next_any_kw_loop fk s kws start best
      | Some idx \<Rightarrow>
          (case best of
             None \<Rightarrow> find_next_any_kw_loop fk s kws start (Some (idx, kw))
           | Some (best_idx, best_kw) \<Rightarrow>
               if idx < best_idx then find_next_any_kw_loop fk s kws start (Some (idx, kw))
               else find_next_any_kw_loop fk s kws start best))"

definition find_next_any_kw ::
  "(string \<Rightarrow> string \<Rightarrow> nat \<Rightarrow> nat option) \<Rightarrow> string \<Rightarrow> string list \<Rightarrow> nat \<Rightarrow> (nat \<times> string) option" where
  "find_next_any_kw fk s keywords start = find_next_any_kw_loop fk s keywords start None"

text \<open>\<open>up_to_rows_re\<close>: \<open>\bUP\s+TO\s+\d+\s+ROWS\b\<close> under \<open>re.IGNORECASE\<close>.\<close>

definition up_to_rows_re :: "string \<Rightarrow> nat \<Rightarrow> nat option" where
  "up_to_rows_re s i =
     do { _ \<leftarrow> re_guard (re_wb s i);
          a \<leftarrow> re_lit_ci ''up'' s i;
          b \<leftarrow> re_ws_plus s a;
          c \<leftarrow> re_lit_ci ''to'' s b;
          d \<leftarrow> re_ws_plus s c;
          e \<leftarrow> re_digits_plus s d;
          f \<leftarrow> re_ws_plus s e;
          g \<leftarrow> re_lit_ci ''rows'' s f;
          _ \<leftarrow> re_guard (re_wb s g);
          Some g }"

definition remove_single :: "string \<Rightarrow> string" where
  "remove_single stmt = re_delete_all (re_word ''single'') stmt 0"

definition remove_any_up_to_rows :: "string \<Rightarrow> string" where
  "remove_any_up_to_rows stmt = re_delete_all up_to_rows_re stmt 0"

text \<open>
  \<open>normalize_spaces\<close> of \<open>select.py\<close>: \<open>re.sub(r'[ \t]+', repl, stmt)\<close>, where \<open>repl\<close> keeps
  a run that holds a tab (or a newline, which no run holds) and turns any other run
  into one space.
\<close>

function select_normalize_loop :: "string \<Rightarrow> nat \<Rightarrow> string" where
  "select_normalize_loop s i =
     (if i < length s then
        (if is_blank (s ! i) then
           (let e = skip_while is_blank s i; run = slice s i e in
              (if NL \<in> set run \<or> TAB \<in> set run then run else '' '') @ select_normalize_loop s e)
         else s ! i # select_normalize_loop s (i + 1))
      else [])"
  by pat_completeness auto
termination
  by (relation "measure (\<lambda>(s, i). length s - i)")
     (auto intro!: diff_less_mono2 skip_while_gt)

declare select_normalize_loop.simps [simp del]

definition select_normalize_spaces :: "string \<Rightarrow> string" where
  "select_normalize_spaces stmt = select_normalize_loop stmt 0"

definition has_endselect_after :: "string \<Rightarrow> nat \<Rightarrow> bool" where
  "has_endselect_after s period_pos =
     (let i = skip_ws_and_comments s (period_pos + 1) in
        i < length s \<and> py_lower (slice s i (i + 10)) = ''endselect.'')"

text \<open>
  The loop after a \<open>select\<close> token that skips white space and comments before the test
  for \<open>single\<close>; a comment with no newline ends at the last character.
\<close>

definition eol_or_last :: "string \<Rightarrow> nat \<Rightarrow> nat" where
  "eol_or_last code i = (case py_find code NL i of None \<Rightarrow> length code - 1 | Some eol \<Rightarrow> eol)"

lemma index_of_SomeD: "index_of c xs = Some k \<Longrightarrow> k < length xs \<and> xs ! k = c"
  by (induction xs arbitrary: k) (auto split: if_splits)

lemma py_find_SomeD: "py_find s c i = Some k \<Longrightarrow> i \<le> k \<and> k < length s \<and> s ! k = c"
  by (auto simp: py_find_def dest!: index_of_SomeD)

lemma eol_or_last_ge: "i < length code \<Longrightarrow> i \<le> eol_or_last code i"
  by (auto simp: eol_or_last_def split: option.splits dest: py_find_SomeD)

function skip_after_select :: "string \<Rightarrow> nat \<Rightarrow> nat" where
  "skip_after_select code after0 =
     (let n = length code; after = skip_while is_ws4 code after0 in
        if after < n \<and> code ! after = DQ then skip_after_select code (eol_or_last code after + 1)
        else if after < n \<and> code ! after = CHR ''*'' \<and> (after = 0 \<or> code ! (after - 1) = NL)
          then skip_after_select code (eol_or_last code after + 1)
        else after)"
  by pat_completeness auto
termination
proof (relation "measure (\<lambda>(code, after). length code - after)", goal_cases)
  case 1
  show ?case by simp
next
  case (2 code after0 n after)
  have "after0 \<le> after" using 2 by (simp add: skip_while_ge)
  moreover have "after \<le> eol_or_last code after" using 2 by (intro eol_or_last_ge) auto
  ultimately show ?case using 2 by auto
next
  case (3 code after0 n after)
  have "after0 \<le> after" using 3 by (simp add: skip_while_ge)
  moreover have "after \<le> eol_or_last code after" using 3 by (intro eol_or_last_ge) auto
  ultimately show ?case using 3 by auto
qed

declare skip_after_select.simps [simp del]

text \<open>
  The scanner of the main loop of \<open>process_select\<close>: it looks for the next \<open>select\<close>
  followed by \<open>single\<close> outside strings and comments.  It ends in one of three ways:
  a statement is found; the text is exhausted; or a comment runs to the end of the text
  with no newline, where the source appends the rest and returns at once.
\<close>

datatype scan_result = Found nat | NotFound | CommentToEnd

function select_scan :: "string \<Rightarrow> nat \<Rightarrow> bool \<Rightarrow> bool \<Rightarrow> bool \<Rightarrow> scan_result" where
  "select_scan code scan_k in_sq in_bt in_tpl =
     (let n = length code in
      if scan_k < n then
        (let c = code ! scan_k in
           if \<not> (in_sq \<or> in_bt \<or> in_tpl) then
             (if c = DQ then
                (case py_find code NL scan_k of
                   None \<Rightarrow> CommentToEnd
                 | Some eol \<Rightarrow> select_scan code (eol + 1) in_sq in_bt in_tpl)
              else if c = CHR ''*'' \<and> (scan_k = 0 \<or> code ! (scan_k - 1) = NL) then
                (case py_find code NL scan_k of
                   None \<Rightarrow> CommentToEnd
                 | Some eol \<Rightarrow> select_scan code (eol + 1) in_sq in_bt in_tpl)
              else if c = SQ then select_scan code (scan_k + 1) True in_bt in_tpl
              else if c = BQ then select_scan code (scan_k + 1) in_sq True in_tpl
              else if c = CHR ''|'' then select_scan code (scan_k + 1) in_sq in_bt True
              else if py_lower (slice code scan_k (scan_k + 6)) = ''select'' \<and> scan_k + 6 \<le> n \<and>
                      (scan_k + 6 = n \<or> \<not> is_word_char (code ! (scan_k + 6))) then
                (let after = skip_after_select code (scan_k + 6) in
                   if after < n \<and> py_lower (slice code after (after + 6)) = ''single'' \<and>
                      (after + 6 = n \<or> \<not> is_word_char (code ! (after + 6)))
                   then Found scan_k
                   else select_scan code (scan_k + 1) in_sq in_bt in_tpl)
              else select_scan code (scan_k + 1) in_sq in_bt in_tpl)
           else if in_sq then
             (if c = SQ then
                (if scan_k + 1 < n \<and> code ! (scan_k + 1) = SQ then select_scan code (scan_k + 2) in_sq in_bt in_tpl
                 else select_scan code (scan_k + 1) False in_bt in_tpl)
              else select_scan code (scan_k + 1) in_sq in_bt in_tpl)
           else if in_bt then
             (if c = BQ then
                (if scan_k + 1 < n \<and> code ! (scan_k + 1) = BQ then select_scan code (scan_k + 2) in_sq in_bt in_tpl
                 else select_scan code (scan_k + 1) in_sq False in_tpl)
              else select_scan code (scan_k + 1) in_sq in_bt in_tpl)
           else
             (if c = CHR ''|'' then
                (if scan_k + 1 < n \<and> code ! (scan_k + 1) = CHR ''|'' then select_scan code (scan_k + 2) in_sq in_bt in_tpl
                 else select_scan code (scan_k + 1) in_sq in_bt False)
              else select_scan code (scan_k + 1) in_sq in_bt in_tpl))
      else NotFound)"
  by pat_completeness auto
termination
  by (relation "measure (\<lambda>(code, k, a, b, c). length code - k)")
     (auto intro!: diff_less_mono2 dest!: py_find_SomeD)

declare select_scan.simps [simp del]

section \<open>Indentation and the provenance tag\<close>

text \<open>
  The start of the line that holds \<open>pos\<close> (\<open>rfind\<close> of a newline, then \<open>+ 1\<close>, or 0), and the
  blanks at the start of that line up to \<open>pos\<close>.  All four modules compute the indentation
  with this loop; its read is guarded by \<open>k < pos\<close> only.
\<close>

definition line_start_of :: "string \<Rightarrow> nat \<Rightarrow> nat" where
  "line_start_of s pos = (case py_rfind s NL pos of None \<Rightarrow> 0 | Some ls \<Rightarrow> ls + 1)"

function indent_loop :: "string \<Rightarrow> nat \<Rightarrow> nat \<Rightarrow> string \<Rightarrow> py_error + string" where
  "indent_loop code k pos indent =
     (if k < pos then
        (case py_idx code k of
           Inl e \<Rightarrow> Inl e
         | Inr c \<Rightarrow>
             if c = CHR '' '' \<or> c = TAB then indent_loop code (k + 1) pos (indent @ [c])
             else Inr indent)
      else Inr indent)"
  by pat_completeness auto
termination
  by (relation "measure (\<lambda>(code, k, pos, indent). pos - k)") auto

declare indent_loop.simps [simp del]

definition get_line_indent_before :: "string \<Rightarrow> nat \<Rightarrow> py_error + string" where
  "get_line_indent_before code pos = indent_loop code (line_start_of code pos) pos []"

text \<open>The tag line; \<open>today\<close> stands for \<open>date.today().isoformat()\<close>.\<close>

definition pwc_tag_line :: "string \<Rightarrow> string" where
  "pwc_tag_line today = [DQ] @ '' Added By Pwc '' @ today @ [NL]"

section \<open>process_select\<close>

definition select_terminators :: "string list" where
  "select_terminators =
     [''from'', ''where'', ''order'', ''group'', ''having'', ''bypassing'', ''client'', ''using'',
      ''for'', ''appending'', ''union'', ''intersect'', ''except'', ''package'', ''up'']"

definition insert_phrase :: string where
  "insert_phrase = '' UP TO 1 ROWS''"

text \<open>Steps 1 to 4 of the loop body: from the statement without its period to \<open>new_stmt\<close>.\<close>

definition select_new_stmt :: "string \<Rightarrow> string" where
  "select_new_stmt stmt =
     (let stmt_wo_single = remove_single stmt;
          cleaned = remove_any_up_to_rows stmt_wo_single;
          where_idx = select_find_kw cleaned ''where'' 0;
          into_idx = (if where_idx \<noteq> None then None else select_find_kw cleaned ''into'' 0);
          new_stmt =
            (case where_idx of
               Some w \<Rightarrow> py_rstrip (take w cleaned) @ insert_phrase @ '' '' @ py_lstrip (drop w cleaned)
             | None \<Rightarrow>
                 (case into_idx of
                    Some into \<Rightarrow>
                      (let search_start = skip_while py_isspace cleaned (into + 4) in
                         case find_next_any_kw select_find_kw cleaned select_terminators search_start of
                           None \<Rightarrow> py_rstrip cleaned @ insert_phrase
                         | Some (next_idx, kw) \<Rightarrow>
                             py_rstrip (take next_idx cleaned) @ insert_phrase @ '' '' @
                             py_lstrip (drop next_idx cleaned))
                  | None \<Rightarrow> py_rstrip cleaned @ insert_phrase))
      in py_strip (select_normalize_spaces new_stmt))"

text \<open>Step 5: the replacement text and the preserved trailing text.\<close>

definition select_replacement :: "string \<Rightarrow> string \<Rightarrow> nat \<Rightarrow> string \<Rightarrow> string \<Rightarrow> string" where
  "select_replacement today code period_pos indent new_stmt =
     (let add_endselect = \<not> has_endselect_after code period_pos;
          replacement =
            (indent @ pwc_tag_line today) @ (new_stmt @ ''.'') @
            (if add_endselect then [NL] @ indent @ ''ENDSELECT.'' else []);
          trailing =
            (if \<not> add_endselect
             then slice code (period_pos + 1) (skip_ws_and_comments code (period_pos + 1))
             else [])
      in replacement @ trailing)"

lemma select_period_loop_SomeD:
  "select_period_loop s i a b c = Some p \<Longrightarrow> i \<le> p \<and> p < length s \<and> s ! p = CHR ''.''"
proof (induction "length s - i" arbitrary: i a b c rule: less_induct)
  case less
  have gt: "i < length s \<Longrightarrow> s ! i \<noteq> NL \<Longrightarrow> i < skip_while not_newline s i"
    by (rule skip_not_newline_gt)
  have IH: "\<And>j a b c. select_period_loop s j a b c = Some p \<Longrightarrow> i < j \<Longrightarrow> i < length s
              \<Longrightarrow> j \<le> p \<and> p < length s \<and> s ! p = CHR ''.''"
    by (rule less.hyps) auto
  from less.prems show ?case
    apply (subst (asm) select_period_loop.simps)
    apply (simp only: Let_def split: if_splits)
    using gt by (auto dest!: IH)
qed

lemma select_find_statement_period_SomeD:
  "select_find_statement_period s start = Some p \<Longrightarrow> start \<le> p \<and> p < length s \<and> s ! p = CHR ''.''"
  unfolding select_find_statement_period_def by (rule select_period_loop_SomeD)

lemma select_scan_FoundD:
  "select_scan code k a b c = Found x \<Longrightarrow> k \<le> x \<and> x < length code"
proof (induction "length code - k" arbitrary: k a b c rule: less_induct)
  case less
  have IH: "\<And>j a b c. select_scan code j a b c = Found x \<Longrightarrow> k < j \<Longrightarrow> k < length code
              \<Longrightarrow> j \<le> x \<and> x < length code"
    by (rule less.hyps) auto
  from less.prems show ?case
    apply (subst (asm) select_scan.simps)
    apply (simp only: Let_def split: if_splits option.splits)
    by (auto dest!: IH py_find_SomeD)
qed

text \<open>
  The main loop of \<open>process_select\<close>.  \<open>out_parts\<close> is the source's list of the same name,
  joined when the loop ends.
\<close>

function process_select_loop :: "string \<Rightarrow> string \<Rightarrow> nat \<Rightarrow> string list \<Rightarrow> py_error + string" where
  "process_select_loop today code i out_parts =
     (if i < length code then
        (case select_scan code i False False False of
           CommentToEnd \<Rightarrow> Inr (concat (out_parts @ [drop i code]))
         | NotFound \<Rightarrow> Inr (concat (out_parts @ [drop i code]))
         | Found sel_start \<Rightarrow>
             (case select_find_statement_period code sel_start of
                None \<Rightarrow> Inr (concat (out_parts @ [slice code i sel_start] @ [drop sel_start code]))
              | Some period_pos \<Rightarrow>
                  (case get_line_indent_before code sel_start of
                     Inl e \<Rightarrow> Inl e
                   | Inr indent \<Rightarrow>
                       process_select_loop today code (period_pos + 1)
                         (out_parts @ [slice code i sel_start] @
                          [select_replacement today code period_pos indent
                             (select_new_stmt (slice code sel_start period_pos))]))))
      else Inr (concat out_parts))"
  by pat_completeness auto
termination
  by (relation "measure (\<lambda>(today, code, i, out_parts). length code - i)")
     (auto dest!: select_scan_FoundD select_find_statement_period_SomeD)

declare process_select_loop.simps [simp del]

definition process_select :: "string \<Rightarrow> string \<Rightarrow> py_error + string" where
  "process_select today code = process_select_loop today code 0 []"

section \<open>Scanner functions of sort.py, orderby.py and read_statement.py\<close>

text \<open>
  \<open>skip_line_comment\<close>, \<open>skip_full_line_star_comment\<close> and \<open>find_statement_period\<close> have
  the same text in the three modules (up to layout); \<open>find_kw\<close> and \<open>at_statement_lead\<close>
  have the same text in \<open>sort.py\<close> and \<open>orderby.py\<close>.
\<close>

definition skip_line_comment :: "string \<Rightarrow> nat \<Rightarrow> nat" where
  "skip_line_comment s i = (case py_find s NL i of None \<Rightarrow> length s | Some eol \<Rightarrow> eol)"

definition skip_full_line_star_comment :: "string \<Rightarrow> nat \<Rightarrow> nat" where
  "skip_full_line_star_comment s i = (case py_find s NL i of None \<Rightarrow> length s | Some eol \<Rightarrow> eol)"

lemma skip_star_comment_eq: "skip_full_line_star_comment s i = skip_line_comment s i"
  by (simp add: skip_full_line_star_comment_def skip_line_comment_def)

lemma skip_line_comment_ge: "i \<le> length s \<Longrightarrow> i \<le> skip_line_comment s i"
  by (auto simp: skip_line_comment_def split: option.splits dest!: py_find_SomeD)

lemma skip_line_comment_gt: "i < length s \<Longrightarrow> s ! i \<noteq> NL \<Longrightarrow> i < skip_line_comment s i"
  by (auto simp: skip_line_comment_def split: option.splits dest!: py_find_SomeD
           intro: le_neq_implies_less)

function find_period_loop :: "string \<Rightarrow> nat \<Rightarrow> bool \<Rightarrow> bool \<Rightarrow> bool \<Rightarrow> nat option" where
  "find_period_loop s i in_sq in_bt in_tpl =
     (if i < length s then
        (let c = s ! i in
           if \<not> (in_sq \<or> in_bt \<or> in_tpl) then
             (if c = DQ then find_period_loop s (skip_line_comment s i) in_sq in_bt in_tpl
              else if c = CHR ''*'' \<and> (i = 0 \<or> s ! (i - 1) = NL)
                then find_period_loop s (skip_full_line_star_comment s i) in_sq in_bt in_tpl
              else if c = SQ then find_period_loop s (i + 1) True in_bt in_tpl
              else if c = BQ then find_period_loop s (i + 1) in_sq True in_tpl
              else if c = CHR ''|'' then find_period_loop s (i + 1) in_sq in_bt True
              else if c = CHR ''.'' then Some i
              else find_period_loop s (i + 1) in_sq in_bt in_tpl)
           else if in_sq then
             (if c = SQ then
                (if i + 1 < length s \<and> s ! (i + 1) = SQ then find_period_loop s (i + 2) in_sq in_bt in_tpl
                 else find_period_loop s (i + 1) False in_bt in_tpl)
              else find_period_loop s (i + 1) in_sq in_bt in_tpl)
           else if in_bt then
             (if c = BQ then
                (if i + 1 < length s \<and> s ! (i + 1) = BQ then find_period_loop s (i + 2) in_sq in_bt in_tpl
                 else find_period_loop s (i + 1) in_sq False in_tpl)
              else find_period_loop s (i + 1) in_sq in_bt in_tpl)
           else
             (if c = CHR ''|'' then
                (if i + 1 < length s \<and> s ! (i + 1) = CHR ''|'' then find_period_loop s (i + 2) in_sq in_bt in_tpl
                 else find_period_loop s (i + 1) in_sq in_bt False)
              else find_period_loop s (i + 1) in_sq in_bt in_tpl))
      else None)"
  by pat_completeness auto
termination
  by (relation "measure (\<lambda>(s, i, a, b, c). length s - i)")
     (auto intro!: diff_less_mono2 skip_line_comment_gt simp: skip_star_comment_eq)

declare find_period_loop.simps [simp del]

definition find_statement_period :: "string \<Rightarrow> nat \<Rightarrow> nat option" where
  "find_statement_period s start = find_period_loop s start False False False"

lemma find_period_loop_SomeD:
  "find_period_loop s i a b c = Some p \<Longrightarrow> i \<le> p \<and> p < length s \<and> s ! p = CHR ''.''"
proof (induction "length s - i" arbitrary: i a b c rule: less_induct)
  case less
  have gt: "i < length s \<Longrightarrow> s ! i \<noteq> NL \<Longrightarrow> i < skip_line_comment s i"
    by (rule skip_line_comment_gt)
  have IH: "\<And>j a b c. find_period_loop s j a b c = Some p \<Longrightarrow> i < j \<Longrightarrow> i < length s
              \<Longrightarrow> j \<le> p \<and> p < length s \<and> s ! p = CHR ''.''"
    by (rule less.hyps) auto
  from less.prems show ?case
    apply (subst (asm) find_period_loop.simps)
    apply (simp only: Let_def skip_star_comment_eq split: if_splits)
    using gt by (auto dest!: IH)
qed

lemma find_statement_period_SomeD:
  "find_statement_period s start = Some p \<Longrightarrow> start \<le> p \<and> p < length s \<and> s ! p = CHR ''.''"
  unfolding find_statement_period_def by (rule find_period_loop_SomeD)

function find_kw_loop :: "string \<Rightarrow> string \<Rightarrow> nat \<Rightarrow> bool \<Rightarrow> bool \<Rightarrow> bool \<Rightarrow> nat option" where
  "find_kw_loop s kw i in_sq in_bt in_tpl =
     (if i < length s then
        (let c = s ! i in
           if \<not> (in_sq \<or> in_bt \<or> in_tpl) then
             (if c = DQ then find_kw_loop s kw (skip_line_comment s i + 1) in_sq in_bt in_tpl
              else if c = CHR ''*'' \<and> (i = 0 \<or> s ! (i - 1) = NL)
                then find_kw_loop s kw (skip_full_line_star_comment s i + 1) in_sq in_bt in_tpl
              else if c = SQ then find_kw_loop s kw (i + 1) True in_bt in_tpl
              else if c = BQ then find_kw_loop s kw (i + 1) in_sq True in_tpl
              else if c = CHR ''|'' then find_kw_loop s kw (i + 1) in_sq in_bt True
              else if match_kw_at s i kw then Some i
              else find_kw_loop s kw (i + 1) in_sq in_bt in_tpl)
           else if in_sq then
             (if c = SQ then
                (if i + 1 < length s \<and> s ! (i + 1) = SQ then find_kw_loop s kw (i + 2) in_sq in_bt in_tpl
                 else find_kw_loop s kw (i + 1) False in_bt in_tpl)
              else find_kw_loop s kw (i + 1) in_sq in_bt in_tpl)
           else if in_bt then
             (if c = BQ then
                (if i + 1 < length s \<and> s ! (i + 1) = BQ then find_kw_loop s kw (i + 2) in_sq in_bt in_tpl
                 else find_kw_loop s kw (i + 1) in_sq False in_tpl)
              else find_kw_loop s kw (i + 1) in_sq in_bt in_tpl)
           else
             (if c = CHR ''|'' then
                (if i + 1 < length s \<and> s ! (i + 1) = CHR ''|'' then find_kw_loop s kw (i + 2) in_sq in_bt in_tpl
                 else find_kw_loop s kw (i + 1) in_sq in_bt False)
              else find_kw_loop s kw (i + 1) in_sq in_bt in_tpl))
      else None)"
  by pat_completeness auto
termination
  by (relation "measure (\<lambda>(s, kw, i, a, b, c). length s - i)")
     (auto intro!: diff_less_mono2 skip_line_comment_ge simp: less_Suc_eq_le skip_star_comment_eq)

declare find_kw_loop.simps [simp del]

definition find_kw :: "string \<Rightarrow> string \<Rightarrow> nat \<Rightarrow> nat option" where
  "find_kw s kw start = find_kw_loop s kw start False False False"

text \<open>
  \<open>at_statement_lead\<close>: is \<open>pos\<close> the first character after the blanks of its line, on a
  line that does not start with \<open>*\<close> after its blanks.  The loop over the blanks reads
  \<open>s[k]\<close> under \<open>k < pos\<close> only.
\<close>

function blank_run_end :: "string \<Rightarrow> nat \<Rightarrow> nat \<Rightarrow> py_error + nat" where
  "blank_run_end s k pos =
     (if k < pos then
        (case py_idx s k of
           Inl e \<Rightarrow> Inl e
         | Inr c \<Rightarrow> if c = CHR '' '' \<or> c = TAB then blank_run_end s (k + 1) pos else Inr k)
      else Inr k)"
  by pat_completeness auto
termination
  by (relation "measure (\<lambda>(s, k, pos). pos - k)") auto

declare blank_run_end.simps [simp del]

definition at_statement_lead :: "string \<Rightarrow> nat \<Rightarrow> py_error + bool" where
  "at_statement_lead s pos =
     (case blank_run_end s (line_start_of s pos) pos of
        Inl e \<Rightarrow> Inl e
      | Inr k \<Rightarrow> if k < length s \<and> s ! k = CHR ''*'' then Inr False else Inr (k = pos))"

text \<open>
  The scanner of the main loops of \<open>process_sort\<close> and \<open>process_orderby\<close>: the next
  \<open>select\<close> token at statement lead, outside strings and comments.
\<close>

function scan_select :: "string \<Rightarrow> nat \<Rightarrow> bool \<Rightarrow> bool \<Rightarrow> bool \<Rightarrow> py_error + nat option" where
  "scan_select code scan in_sq in_bt in_tpl =
     (let n = length code in
      if scan < n then
        (let c = code ! scan in
           if \<not> (in_sq \<or> in_bt \<or> in_tpl) then
             (if c = DQ then
                (let e = skip_line_comment code scan in
                   scan_select code (if e < n then e + 1 else e) in_sq in_bt in_tpl)
              else if c = CHR ''*'' \<and> (scan = 0 \<or> code ! (scan - 1) = NL) then
                (let e = skip_full_line_star_comment code scan in
                   scan_select code (if e < n then e + 1 else e) in_sq in_bt in_tpl)
              else if c = SQ then scan_select code (scan + 1) True in_bt in_tpl
              else if c = BQ then scan_select code (scan + 1) in_sq True in_tpl
              else if c = CHR ''|'' then scan_select code (scan + 1) in_sq in_bt True
              else if py_lower (slice code scan (scan + 6)) = ''select'' \<and>
                      (scan + 6 = n \<or> \<not> is_word_char (code ! (scan + 6))) then
                (case at_statement_lead code scan of
                   Inl e \<Rightarrow> Inl e
                 | Inr lead \<Rightarrow>
                     if lead then Inr (Some scan)
                     else scan_select code (scan + 1) in_sq in_bt in_tpl)
              else scan_select code (scan + 1) in_sq in_bt in_tpl)
           else if in_sq then
             (if c = SQ then
                (if scan + 1 < n \<and> code ! (scan + 1) = SQ then scan_select code (scan + 2) in_sq in_bt in_tpl
                 else scan_select code (scan + 1) False in_bt in_tpl)
              else scan_select code (scan + 1) in_sq in_bt in_tpl)
           else if in_bt then
             (if c = BQ then
                (if scan + 1 < n \<and> code ! (scan + 1) = BQ then scan_select code (scan + 2) in_sq in_bt in_tpl
                 else scan_select code (scan + 1) in_sq False in_tpl)
              else scan_select code (scan + 1) in_sq in_bt in_tpl)
           else
             (if c = CHR ''|'' then
                (if scan + 1 < n \<and> code ! (scan + 1) = CHR ''|'' then scan_select code (scan + 2) in_sq in_bt in_tpl
                 else scan_select code (scan + 1) in_sq in_bt False)
              else scan_select code (scan + 1) in_sq in_bt in_tpl))
      else Inr None)"
  by pat_completeness auto
termination
  by (relation "measure (\<lambda>(code, k, a, b, c). length code - k)")
     (auto intro!: diff_less_mono2 skip_line_comment_ge skip_line_comment_gt
           simp: less_Suc_eq_le skip_star_comment_eq)

declare scan_select.simps [simp del]

lemma scan_select_SomeD:
  "scan_select code k a b c = Inr (Some x) \<Longrightarrow> k \<le> x \<and> x < length code"
proof (induction "length code - k" arbitrary: k a b c rule: less_induct)
  case less
  have IH: "\<And>j a b c. scan_select code j a b c = Inr (Some x) \<Longrightarrow> k < j \<Longrightarrow> k < length code
              \<Longrightarrow> j \<le> x \<and> x < length code"
    by (rule less.hyps) auto
  from less.prems show ?case
    apply (subst (asm) scan_select.simps)
    apply (simp only: Let_def skip_star_comment_eq split: if_splits sum.splits)
    using skip_line_comment_ge [of k code]
    by (auto dest!: IH intro!: skip_line_comment_gt)
qed

section \<open>sort.py: the Pre-Sort-For-Bulk-Lookup pass\<close>

text \<open>
  \<open>next_executable_line_start\<close>: the first character after the blanks of the next line
  that is not blank and does not begin, after its blanks, with \<open>*\<close> or a double quote.
\<close>

function next_executable_line_start :: "string \<Rightarrow> nat \<Rightarrow> nat" where
  "next_executable_line_start s i =
     (let n = length s in
      if i < n then
        (if i = 0 \<or> s ! (i - 1) = NL then
           (let j = skip_while is_blank s i in
              if j \<ge> n then n
              else if s ! j = NL then next_executable_line_start s (j + 1)
              else if s ! j = CHR ''*'' then next_executable_line_start s (skip_full_line_star_comment s j + 1)
              else if s ! j = DQ then next_executable_line_start s (skip_line_comment s j + 1)
              else j)
         else next_executable_line_start s (i + 1))
      else n)"
  by pat_completeness auto
termination
proof (relation "measure (\<lambda>(s, i). length s - i)", goal_cases)
  case 1
  show ?case by simp
next
  case (2 s i n j)
  have "i \<le> j" using 2 by (simp add: skip_while_ge)
  then show ?case using 2 by auto
next
  case (3 s i n j)
  have "i \<le> j" using 3 by (simp add: skip_while_ge)
  moreover have "j \<le> skip_line_comment s j" using 3 by (intro skip_line_comment_ge) auto
  ultimately show ?case using 3 by (auto simp: skip_star_comment_eq)
next
  case (4 s i n j)
  have "i \<le> j" using 4 by (simp add: skip_while_ge)
  moreover have "j \<le> skip_line_comment s j" using 4 by (intro skip_line_comment_ge) auto
  ultimately show ?case using 4 by auto
next
  case (5 s i n)
  then show ?case by auto
qed

declare next_executable_line_start.simps [simp del]

text \<open>\<open>fae_re\<close> of \<open>sort.py\<close> and \<open>orderby.py\<close>: \<open>\bfor\s+all\s+entries\b\<close> under \<open>(?i)\<close>.\<close>

definition fae_re :: "string \<Rightarrow> nat \<Rightarrow> nat option" where
  "fae_re s i =
     do { _ \<leftarrow> re_guard (re_wb s i);
          a \<leftarrow> re_lit_ci ''for'' s i;
          b \<leftarrow> re_ws_plus s a;
          c \<leftarrow> re_lit_ci ''all'' s b;
          d \<leftarrow> re_ws_plus s c;
          e \<leftarrow> re_lit_ci ''entries'' s d;
          _ \<leftarrow> re_guard (re_wb s e);
          Some e }"

text \<open>\<open>has_for_all_entries\<close> of \<open>sort.py\<close>: a plain search of the whole statement.\<close>

definition sort_has_for_all_entries :: "string \<Rightarrow> bool" where
  "sort_has_for_all_entries stmt = (re_search fae_re stmt 0 \<noteq> None)"

text \<open>
  \<open>target_tbl_re\<close>, from the inside out; each matcher returns the captured name
  (\<open>t1\<close> or \<open>t2\<close>).  \<open>target_name\<close> is the final alternative \<open>@data(name)\<close> or \<open>@?name\<close>;
  \<open>target_after_table\<close> puts the optional \<open>table\<close> before it, \<open>target_after_fields\<close> the
  optional \<open>corresponding fields of\<close> before that.  An optional group is tried first
  and, when the rest then fails, skipped, as the engine does.
\<close>

definition target_name :: "string \<Rightarrow> nat \<Rightarrow> string option" where
  "target_name s p =
     (case do { a \<leftarrow> re_lit_ci ''@data'' s p;
                b \<leftarrow> re_char (CHR ''('') s (re_ws_star s a);
                e \<leftarrow> re_ident s (re_ws_star s b);
                _ \<leftarrow> re_char (CHR '')'') s (re_ws_star s e);
                Some (slice s (re_ws_star s b) e) } of
        Some t1 \<Rightarrow> Some t1
      | None \<Rightarrow>
          (let q = (if p < length s \<and> s ! p = CHR ''@'' then p + 1 else p) in
             map_option (\<lambda>e. slice s q e) (re_ident s q)))"

definition target_after_table :: "string \<Rightarrow> nat \<Rightarrow> string option" where
  "target_after_table s p =
     (case do { a \<leftarrow> re_lit_ci ''table'' s p; b \<leftarrow> re_ws_plus s a; target_name s b } of
        Some t \<Rightarrow> Some t
      | None \<Rightarrow> target_name s p)"

definition target_after_fields :: "string \<Rightarrow> nat \<Rightarrow> string option" where
  "target_after_fields s p =
     (case do { a \<leftarrow> re_lit_ci ''corresponding'' s p;
                b \<leftarrow> re_ws_plus s a;
                c \<leftarrow> re_lit_ci ''fields'' s b;
                d \<leftarrow> re_ws_plus s c;
                e \<leftarrow> re_lit_ci ''of'' s d;
                f \<leftarrow> re_ws_plus s e;
                target_after_table s f } of
        Some t \<Rightarrow> Some t
      | None \<Rightarrow> target_after_table s p)"

definition target_tbl_re :: "string \<Rightarrow> nat \<Rightarrow> string option" where
  "target_tbl_re s i =
     do { _ \<leftarrow> re_guard (re_wb s i);
          a \<leftarrow> (case re_lit_ci ''into'' s i of Some a \<Rightarrow> Some a | None \<Rightarrow> re_lit_ci ''appending'' s i);
          b \<leftarrow> re_ws_plus s a;
          target_after_fields s b }"

definition extract_target_table :: "string \<Rightarrow> string option" where
  "extract_target_table stmt = map_option snd (re_search target_tbl_re stmt 0)"

text \<open>\<open>extract_select_list\<close> of \<open>sort.py\<close> and \<open>orderby.py\<close>.\<close>

definition extract_select_list :: "string \<Rightarrow> string" where
  "extract_select_list stmt =
     (case find_kw stmt ''select'' 0 of
        None \<Rightarrow> []
      | Some sel_idx \<Rightarrow>
          (let i = skip_while py_isspace stmt (sel_idx + 6) in
             case find_kw stmt ''from'' i of
               None \<Rightarrow> []
             | Some from_idx \<Rightarrow> py_strip (slice stmt i from_idx)))"

text \<open>
  \<open>split_fields\<close> of \<open>sort.py\<close>.  First the loop that cuts the list at the commas outside
  parentheses and strings; it returns the items and the last buffer.
\<close>

function sort_tokenize ::
  "string \<Rightarrow> nat \<Rightarrow> string \<Rightarrow> nat \<Rightarrow> bool \<Rightarrow> bool \<Rightarrow> bool \<Rightarrow> string list \<Rightarrow> string list \<times> string" where
  "sort_tokenize s i buf depth in_sq in_bt in_tpl items =
     (if i < length s then
        (let c = s ! i in
           if \<not> (in_sq \<or> in_bt \<or> in_tpl) then
             (if c = SQ then sort_tokenize s (i + 1) (buf @ [c]) depth True in_bt in_tpl items
              else if c = BQ then sort_tokenize s (i + 1) (buf @ [c]) depth in_sq True in_tpl items
              else if c = CHR ''|'' then sort_tokenize s (i + 1) (buf @ [c]) depth in_sq in_bt True items
              else if c = CHR ''('' then sort_tokenize s (i + 1) (buf @ [c]) (depth + 1) in_sq in_bt in_tpl items
              else if c = CHR '')'' then sort_tokenize s (i + 1) (buf @ [c]) (depth - 1) in_sq in_bt in_tpl items
              else if depth = 0 \<and> c = CHR '','' then
                (let item = py_strip buf in
                   sort_tokenize s (i + 1) [] depth in_sq in_bt in_tpl
                     (if item \<noteq> [] then items @ [item] else items))
              else sort_tokenize s (i + 1) (buf @ [c]) depth in_sq in_bt in_tpl items)
           else if in_sq then
             (if c = SQ then
                (if i + 1 < length s \<and> s ! (i + 1) = SQ
                 then sort_tokenize s (i + 2) (buf @ [c] @ [s ! (i + 1)]) depth in_sq in_bt in_tpl items
                 else sort_tokenize s (i + 1) (buf @ [c]) depth False in_bt in_tpl items)
              else sort_tokenize s (i + 1) (buf @ [c]) depth in_sq in_bt in_tpl items)
           else if in_bt then
             (if c = BQ then
                (if i + 1 < length s \<and> s ! (i + 1) = BQ
                 then sort_tokenize s (i + 2) (buf @ [c] @ [s ! (i + 1)]) depth in_sq in_bt in_tpl items
                 else sort_tokenize s (i + 1) (buf @ [c]) depth in_sq False in_tpl items)
              else sort_tokenize s (i + 1) (buf @ [c]) depth in_sq in_bt in_tpl items)
           else
             (if c = CHR ''|'' then
                (if i + 1 < length s \<and> s ! (i + 1) = CHR ''|''
                 then sort_tokenize s (i + 2) (buf @ [c] @ [s ! (i + 1)]) depth in_sq in_bt in_tpl items
                 else sort_tokenize s (i + 1) (buf @ [c]) depth in_sq in_bt False items)
              else sort_tokenize s (i + 1) (buf @ [c]) depth in_sq in_bt in_tpl items))
      else (items, buf))"
  by pat_completeness auto
termination
  by (relation "measure (\<lambda>(s, i, buf, depth, a, b, c, items). length s - i)") auto

declare sort_tokenize.simps [simp del]

text \<open>
  The regrouping of the white-space tokens when the list has no comma.  \<open>tokens[k-1]\<close>
  is an unguarded index; for \<open>k = 0\<close> Python reads the last token.
\<close>

function sort_regroup :: "string list \<Rightarrow> nat \<Rightarrow> string list \<Rightarrow> py_error + string list" where
  "sort_regroup tokens k items =
     (if k < length tokens then
        (if py_lower (tokens ! k) = ''as'' \<and> k + 1 < length tokens then
           (if items \<noteq> [] then
              (case py_idx tokens (if k = 0 then length tokens - 1 else k - 1) of
                 Inl e \<Rightarrow> Inl e
               | Inr prev \<Rightarrow> sort_regroup tokens (k + 2) (items @ [prev @ '' AS '' @ tokens ! (k + 1)]))
            else sort_regroup tokens (k + 2) (items @ [''AS '' @ tokens ! (k + 1)]))
         else sort_regroup tokens (k + 1) (items @ [tokens ! k]))
      else Inr items)"
  by pat_completeness auto
termination
  by (relation "measure (\<lambda>(tokens, k, items). length tokens - k)") auto

declare sort_regroup.simps [simp del]

definition py_rstrip_char :: "char \<Rightarrow> string \<Rightarrow> string" where
  "py_rstrip_char c s = rev (dropWhile (\<lambda>x. x = c) (rev s))"

definition py_last :: "'a list \<Rightarrow> py_error + 'a" where
  "py_last xs = (if xs = [] then Inl IndexError else Inr (last xs))"

text \<open>\<open>re.match(r'^[A-Za-z_]\w*$', t)\<close>; \<open>$\<close> also matches before a final newline.\<close>

definition is_identifier :: "string \<Rightarrow> bool" where
  "is_identifier t =
     (case re_ident t 0 of
        None \<Rightarrow> False
      | Some e \<Rightarrow> e = length t \<or> (e + 1 = length t \<and> t ! e = NL))"

text \<open>
  The body of the loop that turns an item into a component name: \<open>None\<close> where the source
  continues without appending.  \<open>sort_unwrap\<close> removes one pair of enclosing parentheses,
  \<open>sort_alias_of\<close> is the part for an item with the word \<open>AS\<close>, and \<open>sort_plain_name\<close> the
  rest of the body, for an item without a usable alias.
\<close>

definition sort_alias_of :: "string \<Rightarrow> py_error + string option" where
  "sort_alias_of t =
     (case re_search (re_word ''as'') t 0 of
        None \<Rightarrow> Inr None
      | Some (m_start, m_end) \<Rightarrow>
          (let alias = py_strip (drop m_end t) in
             if alias \<noteq> [] then
               (case py_idx (py_split alias) 0 of
                  Inl e \<Rightarrow> Inl e
                | Inr a \<Rightarrow>
                    (let a' = py_strip (py_rstrip_char (CHR '','') a) in
                       if a' \<noteq> [] then Inr (Some a') else Inr None))
             else Inr None))"

definition sort_unwrap :: "string \<Rightarrow> string" where
  "sort_unwrap t =
     (if py_startswith t ''('' \<and> py_endswith t '')'' then
        (let inner = py_strip (slice t 1 (length t - 1)) in if inner \<noteq> [] then inner else t)
      else t)"

definition sort_plain_name :: "string \<Rightarrow> py_error + string option" where
  "sort_plain_name t1 =
     (case (if CHR ''~'' \<in> set t1
            then map_sum id py_strip (py_last (py_split_on (CHR ''~'') t1))
            else Inr t1) of
        Inl e \<Rightarrow> Inl e
      | Inr t2 \<Rightarrow>
          (let t3 = (if py_endswith t2 '','' then py_strip (butlast t2) else t2) in
             if CHR ''('' \<in> set t3 \<or> CHR '')'' \<in> set t3 then Inr None
             else if py_lower t3 = ''distinct'' then Inr None
             else
               (let t4 = dropWhile (\<lambda>c. c = CHR ''@'') t3 in
                  if is_identifier t4 then Inr (Some t4) else Inr None)))"

definition sort_field_of_item :: "string \<Rightarrow> py_error + string option" where
  "sort_field_of_item it =
     (let t0 = py_strip it in
      if t0 = [] then Inr None
      else
        (let t1 = sort_unwrap t0 in
           case sort_alias_of t1 of
             Inl e \<Rightarrow> Inl e
           | Inr (Some alias) \<Rightarrow> Inr (Some alias)
           | Inr None \<Rightarrow> sort_plain_name t1))"

fun sort_fields_of_items :: "string list \<Rightarrow> py_error + string list" where
  "sort_fields_of_items [] = Inr []"
| "sort_fields_of_items (it # its) =
     (case sort_field_of_item it of
        Inl e \<Rightarrow> Inl e
      | Inr r \<Rightarrow>
          (case sort_fields_of_items its of
             Inl e \<Rightarrow> Inl e
           | Inr fs \<Rightarrow> Inr (case r of None \<Rightarrow> fs | Some f \<Rightarrow> f # fs)))"

text \<open>Removal of duplicates by lower-cased name, first occurrence kept.\<close>

fun dedupe_ci :: "string list \<Rightarrow> string list \<Rightarrow> string list" where
  "dedupe_ci seen [] = []"
| "dedupe_ci seen (f # fs) =
     (let key = py_lower f in
        if key \<in> set seen then dedupe_ci seen fs else f # dedupe_ci (key # seen) fs)"

definition sort_split_fields :: "string \<Rightarrow> py_error + string list" where
  "sort_split_fields field_segment =
     (let s0 = py_strip field_segment in
      if s0 = [] then Inr []
      else
        (let s = (if py_startswith (py_lower s0) ''distinct'' then py_lstrip (drop 8 s0) else s0) in
           if s = ''*'' \<or> py_startswith s ''('' then Inr [''*'']
           else
             (let (items0, buf) = sort_tokenize s 0 [] 0 False False False [];
                  last_item = py_strip buf;
                  items1 = (if last_item \<noteq> [] then items0 @ [last_item] else items0)
              in case (if CHR '','' \<notin> set field_segment then sort_regroup (py_split s) 0 [] else Inr items1) of
                   Inl e \<Rightarrow> Inl e
                 | Inr items \<Rightarrow>
                     (case sort_fields_of_items items of
                        Inl e \<Rightarrow> Inl e
                      | Inr out_fields \<Rightarrow> Inr (dedupe_ci [] out_fields)))))"

text \<open>\<open>re.match(r'(?is)^sort\s+([A-Za-z_]\w*)\b', line)\<close>: the captured name.\<close>

definition sort_line_re :: "string \<Rightarrow> string option" where
  "sort_line_re line =
     do { a \<leftarrow> re_lit_ci ''sort'' line 0;
          b \<leftarrow> re_ws_plus line a;
          e \<leftarrow> re_ident line b;
          _ \<leftarrow> re_guard (re_wb line e);
          Some (slice line b e) }"

text \<open>The line that starts at \<open>start\<close>, cut at its first double quote and stripped.\<close>

definition code_line_at :: "string \<Rightarrow> nat \<Rightarrow> string" where
  "code_line_at s start =
     (let line = (case py_find s NL start of None \<Rightarrow> drop start s | Some line_end \<Rightarrow> slice s start line_end);
          line' = (case py_find line DQ 0 of None \<Rightarrow> line | Some q \<Rightarrow> take q line)
      in py_strip line')"

definition is_sort_immediately_next_for_target :: "string \<Rightarrow> nat \<Rightarrow> string \<Rightarrow> bool" where
  "is_sort_immediately_next_for_target s period_pos target =
     (let start = next_executable_line_start s (period_pos + 1) in
        if start \<ge> length s then False
        else (case sort_line_re (code_line_at s start) of
                None \<Rightarrow> False
              | Some name \<Rightarrow> py_lower name = py_lower target))"

fun py_join :: "string \<Rightarrow> string list \<Rightarrow> string" where
  "py_join sep [] = []"
| "py_join sep [x] = x"
| "py_join sep (x # y # ys) = x @ sep @ py_join sep (y # ys)"

text \<open>
  The text that \<open>process_sort\<close> puts after the period of a statement: empty where the
  source appends the statement unchanged (no \<open>FOR ALL ENTRIES\<close>, no target table, or a
  \<open>SORT\<close> of the target already next), else a newline, the \<open>SORT\<close> statement, a newline
  and the tag line.
\<close>

definition sort_insertion :: "string \<Rightarrow> string \<Rightarrow> nat \<Rightarrow> nat \<Rightarrow> py_error + string" where
  "sort_insertion today code sel_pos period_pos =
     (let stmt = slice code sel_pos period_pos in
      if \<not> sort_has_for_all_entries stmt then Inr []
      else
        (case extract_target_table stmt of
           None \<Rightarrow> Inr []
         | Some target \<Rightarrow>
             if target = [] then Inr []
             else if is_sort_immediately_next_for_target code period_pos target then Inr []
             else
               (case sort_split_fields (extract_select_list stmt) of
                  Inl e \<Rightarrow> Inl e
                | Inr fields \<Rightarrow>
                    (case get_line_indent_before code sel_pos of
                       Inl e \<Rightarrow> Inl e
                     | Inr indent \<Rightarrow>
                         (let sort_stmt =
                                (if fields = [] \<or> fields = [''*''] \<or> list_ex (\<lambda>f. py_strip f = ''*'') fields
                                 then indent @ ''SORT '' @ target @ ''.''
                                 else indent @ ''SORT '' @ target @ '' BY '' @ py_join '' '' fields @ ''.'')
                          in Inr ([NL] @ sort_stmt @ [NL] @ indent @ pwc_tag_line today))))))"

function process_sort_loop :: "string \<Rightarrow> string \<Rightarrow> nat \<Rightarrow> string list \<Rightarrow> py_error + string" where
  "process_sort_loop today code i out_parts =
     (if i < length code then
        (case scan_select code i False False False of
           Inl e \<Rightarrow> Inl e
         | Inr None \<Rightarrow> Inr (concat (out_parts @ [drop i code]))
         | Inr (Some sel_pos) \<Rightarrow>
             (case find_statement_period code sel_pos of
                None \<Rightarrow> Inr (concat (out_parts @ [slice code i sel_pos] @ [drop sel_pos code]))
              | Some period_pos \<Rightarrow>
                  (case sort_insertion today code sel_pos period_pos of
                     Inl e \<Rightarrow> Inl e
                   | Inr insertion \<Rightarrow>
                       process_sort_loop today code (period_pos + 1)
                         (out_parts @ [slice code i sel_pos] @
                          [slice code sel_pos (period_pos + 1) @ insertion]))))
      else Inr (concat out_parts))"
  by pat_completeness auto
termination
  by (relation "measure (\<lambda>(today, code, i, out_parts). length code - i)")
     (auto dest!: scan_select_SomeD find_statement_period_SomeD)

declare process_sort_loop.simps [simp del]

definition process_sort :: "string \<Rightarrow> string \<Rightarrow> py_error + string" where
  "process_sort today code = process_sort_loop today code 0 []"

section \<open>orderby.py: the Explicit-Order pass\<close>

text \<open>
  \<open>find_phrase\<close>: it walks over comments and strings up to the first other character
  and returns the start of the first match of the pattern from there on; the search
  itself pays no attention to strings or comments.
\<close>

function find_phrase_loop ::
  "(string \<Rightarrow> nat \<Rightarrow> nat option) \<Rightarrow> string \<Rightarrow> nat \<Rightarrow> bool \<Rightarrow> bool \<Rightarrow> bool \<Rightarrow> nat option" where
  "find_phrase_loop phrase_re s i in_sq in_bt in_tpl =
     (if i < length s then
        (let c = s ! i in
           if \<not> (in_sq \<or> in_bt \<or> in_tpl) then
             (if c = DQ then find_phrase_loop phrase_re s (skip_line_comment s i + 1) in_sq in_bt in_tpl
              else if c = CHR ''*'' \<and> (i = 0 \<or> s ! (i - 1) = NL)
                then find_phrase_loop phrase_re s (skip_full_line_star_comment s i + 1) in_sq in_bt in_tpl
              else if c = SQ then find_phrase_loop phrase_re s (i + 1) True in_bt in_tpl
              else if c = BQ then find_phrase_loop phrase_re s (i + 1) in_sq True in_tpl
              else if c = CHR ''|'' then find_phrase_loop phrase_re s (i + 1) in_sq in_bt True
              else map_option fst (re_search phrase_re s i))
           else if in_sq then
             (if c = SQ then
                (if i + 1 < length s \<and> s ! (i + 1) = SQ then find_phrase_loop phrase_re s (i + 2) in_sq in_bt in_tpl
                 else find_phrase_loop phrase_re s (i + 1) False in_bt in_tpl)
              else find_phrase_loop phrase_re s (i + 1) in_sq in_bt in_tpl)
           else if in_bt then
             (if c = BQ then
                (if i + 1 < length s \<and> s ! (i + 1) = BQ then find_phrase_loop phrase_re s (i + 2) in_sq in_bt in_tpl
                 else find_phrase_loop phrase_re s (i + 1) in_sq False in_tpl)
              else find_phrase_loop phrase_re s (i + 1) in_sq in_bt in_tpl)
           else
             (if c = CHR ''|'' then
                (if i + 1 < length s \<and> s ! (i + 1) = CHR ''|'' then find_phrase_loop phrase_re s (i + 2) in_sq in_bt in_tpl
                 else find_phrase_loop phrase_re s (i + 1) in_sq in_bt False)
              else find_phrase_loop phrase_re s (i + 1) in_sq in_bt in_tpl))
      else None)"
  by pat_completeness auto
termination
  by (relation "measure (\<lambda>(m, s, i, a, b, c). length s - i)")
     (auto intro!: diff_less_mono2 skip_line_comment_ge simp: less_Suc_eq_le skip_star_comment_eq)

declare find_phrase_loop.simps [simp del]

definition find_phrase :: "string \<Rightarrow> (string \<Rightarrow> nat \<Rightarrow> nat option) \<Rightarrow> nat \<Rightarrow> nat option" where
  "find_phrase s phrase_re start = find_phrase_loop phrase_re s start False False False"

text \<open>\<open>order_by_re\<close>: \<open>\border\s+by\b\<close> under \<open>(?i)\<close>.\<close>

definition order_by_re :: "string \<Rightarrow> nat \<Rightarrow> nat option" where
  "order_by_re s i =
     do { _ \<leftarrow> re_guard (re_wb s i);
          a \<leftarrow> re_lit_ci ''order'' s i;
          b \<leftarrow> re_ws_plus s a;
          c \<leftarrow> re_lit_ci ''by'' s b;
          _ \<leftarrow> re_guard (re_wb s c);
          Some c }"

definition orderby_has_for_all_entries :: "string \<Rightarrow> bool" where
  "orderby_has_for_all_entries stmt = (find_phrase stmt fae_re 0 \<noteq> None)"

definition has_order_by :: "string \<Rightarrow> bool" where
  "has_order_by stmt = (find_phrase stmt order_by_re 0 \<noteq> None)"

text \<open>
  \<open>normalize_spaces_preserve_newlines\<close>: every run of blanks becomes one space (a run
  holds no newline, so the other branch of \<open>repl\<close> is never taken).
\<close>

function orderby_normalize_loop :: "string \<Rightarrow> nat \<Rightarrow> string" where
  "orderby_normalize_loop s i =
     (if i < length s then
        (if is_blank (s ! i) then
           (let e = skip_while is_blank s i; run = slice s i e in
              (if NL \<notin> set run then '' '' else run) @ orderby_normalize_loop s e)
         else s ! i # orderby_normalize_loop s (i + 1))
      else [])"
  by pat_completeness auto
termination
  by (relation "measure (\<lambda>(s, i). length s - i)")
     (auto intro!: diff_less_mono2 skip_while_gt)

declare orderby_normalize_loop.simps [simp del]

definition normalize_spaces_preserve_newlines :: "string \<Rightarrow> string" where
  "normalize_spaces_preserve_newlines text = orderby_normalize_loop text 0"

text \<open>
  \<open>split_fields\<close> of \<open>orderby.py\<close>.  Its first loop differs from the one of \<open>sort.py\<close>:
  outside parentheses a white-space character puts one space into the buffer, unless
  the buffer is empty or ends with a space.
\<close>

function orderby_tokenize ::
  "string \<Rightarrow> nat \<Rightarrow> string \<Rightarrow> nat \<Rightarrow> bool \<Rightarrow> bool \<Rightarrow> bool \<Rightarrow> string list \<Rightarrow> string list \<times> string" where
  "orderby_tokenize s i buf depth in_sq in_bt in_tpl items =
     (if i < length s then
        (let c = s ! i in
           if \<not> (in_sq \<or> in_bt \<or> in_tpl) then
             (if c = SQ then orderby_tokenize s (i + 1) (buf @ [c]) depth True in_bt in_tpl items
              else if c = BQ then orderby_tokenize s (i + 1) (buf @ [c]) depth in_sq True in_tpl items
              else if c = CHR ''|'' then orderby_tokenize s (i + 1) (buf @ [c]) depth in_sq in_bt True items
              else if c = CHR ''('' then orderby_tokenize s (i + 1) (buf @ [c]) (depth + 1) in_sq in_bt in_tpl items
              else if c = CHR '')'' then orderby_tokenize s (i + 1) (buf @ [c]) (depth - 1) in_sq in_bt in_tpl items
              else if depth = 0 \<and> c = CHR '','' then
                (let item = py_strip buf in
                   orderby_tokenize s (i + 1) [] depth in_sq in_bt in_tpl
                     (if item \<noteq> [] then items @ [item] else items))
              else if depth = 0 \<and> py_isspace c then
                orderby_tokenize s (i + 1)
                  (if buf \<noteq> [] \<and> last buf \<noteq> CHR '' '' then buf @ '' '' else buf)
                  depth in_sq in_bt in_tpl items
              else orderby_tokenize s (i + 1) (buf @ [c]) depth in_sq in_bt in_tpl items)
           else if in_sq then
             (if c = SQ then
                (if i + 1 < length s \<and> s ! (i + 1) = SQ
                 then orderby_tokenize s (i + 2) (buf @ [c] @ [s ! (i + 1)]) depth in_sq in_bt in_tpl items
                 else orderby_tokenize s (i + 1) (buf @ [c]) depth False in_bt in_tpl items)
              else orderby_tokenize s (i + 1) (buf @ [c]) depth in_sq in_bt in_tpl items)
           else if in_bt then
             (if c = BQ then
                (if i + 1 < length s \<and> s ! (i + 1) = BQ
                 then orderby_tokenize s (i + 2) (buf @ [c] @ [s ! (i + 1)]) depth in_sq in_bt in_tpl items
                 else orderby_tokenize s (i + 1) (buf @ [c]) depth in_sq False in_tpl items)
              else orderby_tokenize s (i + 1) (buf @ [c]) depth in_sq in_bt in_tpl items)
           else
             (if c = CHR ''|'' then
                (if i + 1 < length s \<and> s ! (i + 1) = CHR ''|''
                 then orderby_tokenize s (i + 2) (buf @ [c] @ [s ! (i + 1)]) depth in_sq in_bt in_tpl items
                 else orderby_tokenize s (i + 1) (buf @ [c]) depth in_sq in_bt False items)
              else orderby_tokenize s (i + 1) (buf @ [c]) depth in_sq in_bt in_tpl items))
      else (items, buf))"
  by pat_completeness auto
termination
  by (relation "measure (\<lambda>(s, i, buf, depth, a, b, c, items). length s - i)") auto

declare orderby_tokenize.simps [simp del]

text \<open>
  The loop over the space-separated tokens of one item; \<open>curr_toks\<close> is the source's
  list \<open>curr\<close>, \<open>final_items\<close> the list of that name.  It returns both when the tokens are exhausted.
\<close>

function orderby_merge ::
  "string list \<Rightarrow> nat \<Rightarrow> string list \<Rightarrow> string list \<Rightarrow> string list \<times> string list" where
  "orderby_merge toks k curr_toks final_items =
     (if k < length toks then
        (let tok = toks ! k in
           if py_lower tok = ''as'' \<and> curr_toks \<noteq> [] then
             (if k + 1 < length toks then orderby_merge toks (k + 2) [] (final_items @ [toks ! (k + 1)])
              else orderby_merge toks (k + 1) curr_toks final_items)
           else if py_lower tok = ''distinct'' then orderby_merge toks (k + 1) curr_toks final_items
           else
             (let curr_toks' = curr_toks @ [tok] in
                if length curr_toks' \<ge> 1 \<and> k + 1 < length toks
                then orderby_merge toks (k + 1) [] (final_items @ [py_join '' '' curr_toks'])
                else orderby_merge toks (k + 1) curr_toks' final_items))
      else (curr_toks, final_items))"
  by pat_completeness auto
termination
  by (relation "measure (\<lambda>(toks, k, curr_toks, final_items). length toks - k)") auto

declare orderby_merge.simps [simp del]

fun orderby_final_items :: "string list \<Rightarrow> string list \<Rightarrow> string list" where
  "orderby_final_items [] final_items = final_items"
| "orderby_final_items (it # its) final_items =
     (let toks = filter (\<lambda>t. t \<noteq> []) (py_split_on (CHR '' '') (py_strip it)) in
        if toks = [] then orderby_final_items its final_items
        else
          (let (curr_toks, final_items') = orderby_merge toks 0 [] final_items in
             orderby_final_items its
               (if curr_toks \<noteq> [] then final_items' @ [py_join '' '' curr_toks] else final_items')))"

text \<open>
  The alias of an item with the word \<open>AS\<close>, used where the list has commas and again in
  the main loop: the first token after \<open>AS\<close>, or the text before \<open>AS\<close> when nothing follows.
  The index \<open>[0]\<close> of the split is guarded by the test that the text is not empty.
\<close>

definition orderby_alias_or_self :: "string \<Rightarrow> py_error + string" where
  "orderby_alias_or_self it =
     (case re_search (re_word ''as'') it 0 of
        None \<Rightarrow> Inr (py_strip it)
      | Some (m_start, m_end) \<Rightarrow>
          (let rest = py_strip (drop m_end it) in
             case (if rest \<noteq> [] then py_idx (py_split rest) 0 else Inr []) of
               Inl e \<Rightarrow> Inl e
             | Inr alias \<Rightarrow> Inr (if alias \<noteq> [] then alias else py_strip (take m_start it))))"

fun orderby_comma_items :: "string list \<Rightarrow> py_error + string list" where
  "orderby_comma_items [] = Inr []"
| "orderby_comma_items (it # its) =
     (case orderby_alias_or_self it of
        Inl e \<Rightarrow> Inl e
      | Inr x \<Rightarrow> map_sum id (\<lambda>xs. x # xs) (orderby_comma_items its))"

definition orderby_split_fields :: "string \<Rightarrow> py_error + string list" where
  "orderby_split_fields field_segment =
     (let s = py_strip field_segment in
      if s = [] then Inr []
      else if s = ''*'' \<or> py_startswith (py_lower s) ''('' then Inr [''*'']
      else
        (let (items0, buf) = orderby_tokenize s 0 [] 0 False False False [];
             last_item = py_strip buf;
             items = (if last_item \<noteq> [] then items0 @ [last_item] else items0)
         in case (if CHR '','' \<in> set field_segment then orderby_comma_items items
                  else Inr (orderby_final_items items [])) of
              Inl e \<Rightarrow> Inl e
            | Inr final_items \<Rightarrow>
                Inr (filter (\<lambda>x. x \<noteq> [] \<and> py_lower x \<noteq> ''distinct'') (map py_strip final_items))))"

definition WHERE_TERMINATORS :: "string list" where
  "WHERE_TERMINATORS =
     [''group'', ''having'', ''order'', ''into'', ''appending'', ''up'', ''for'', ''bypassing'',
      ''union'', ''intersect'', ''except'', ''client'', ''using'', ''package'']"

text \<open>\<open>re.match(r'^[A-Za-z_]\w*(~[A-Za-z_]\w*)?$', inner)\<close>.\<close>

definition re_dollar :: "string \<Rightarrow> nat \<Rightarrow> bool" where
  "re_dollar t e = (e = length t \<or> (e + 1 = length t \<and> t ! e = NL))"

definition is_qualified_identifier :: "string \<Rightarrow> bool" where
  "is_qualified_identifier t =
     (case re_ident t 0 of
        None \<Rightarrow> False
      | Some e1 \<Rightarrow>
          (case do { a \<leftarrow> re_char (CHR ''~'') t e1; re_ident t a } of
             Some e2 \<Rightarrow> re_dollar t e2 \<or> re_dollar t e1
           | None \<Rightarrow> re_dollar t e1))"

text \<open>The cleaning of one field in the main loop; \<open>None\<close> where the source continues.\<close>

definition orderby_unwrap :: "string \<Rightarrow> string" where
  "orderby_unwrap t =
     (if py_startswith t ''('' \<and> py_endswith t '')'' then
        (let inner = py_strip (slice t 1 (length t - 1)) in
           if is_qualified_identifier inner then inner else t)
      else t)"

definition orderby_clean_field :: "string \<Rightarrow> py_error + string option" where
  "orderby_clean_field f =
     (let t0 = py_strip f in
      if t0 = [] then Inr None
      else
        (let t1 = (if py_endswith t0 '','' then py_strip (butlast t0) else t0) in
           case (if re_search (re_word ''as'') t1 0 \<noteq> None then orderby_alias_or_self t1 else Inr t1) of
             Inl e \<Rightarrow> Inl e
           | Inr t2 \<Rightarrow> Inr (Some (orderby_unwrap t2))))"

fun orderby_clean_fields :: "string list \<Rightarrow> py_error + string list" where
  "orderby_clean_fields [] = Inr []"
| "orderby_clean_fields (f # fs) =
     (case orderby_clean_field f of
        Inl e \<Rightarrow> Inl e
      | Inr r \<Rightarrow>
          (case orderby_clean_fields fs of
             Inl e \<Rightarrow> Inl e
           | Inr ts \<Rightarrow> Inr (case r of None \<Rightarrow> ts | Some t \<Rightarrow> t # ts)))"

definition orderby_clause_of :: "string list \<Rightarrow> py_error + string" where
  "orderby_clause_of fields =
     (if fields = [] \<or> fields = [''*''] \<or> list_ex (\<lambda>f. py_strip f = ''*'') fields
      then Inr '' ORDER BY PRIMARY KEY''
      else
        (case orderby_clean_fields fields of
           Inl e \<Rightarrow> Inl e
         | Inr cleaned \<Rightarrow>
             (let ordered = dedupe_ci [] cleaned in
                Inr ('' ORDER BY '' @ py_join '', '' (if ordered \<noteq> [] then ordered else [''PRIMARY KEY''])))))"

text \<open>The statement with the clause put in, before normalisation.\<close>

definition orderby_insert_clause :: "string \<Rightarrow> string \<Rightarrow> string" where
  "orderby_insert_clause stmt orderby_clause =
     (let insert_pos_in_stmt =
            (case find_kw stmt ''where'' 0 of
               Some where_idx \<Rightarrow>
                 (case find_next_any_kw find_kw stmt WHERE_TERMINATORS (where_idx + 5) of
                    Some (end_idx, kw) \<Rightarrow> end_idx
                  | None \<Rightarrow> length stmt)
             | None \<Rightarrow> length stmt);
          left = py_rstrip (take insert_pos_in_stmt stmt);
          right = py_lstrip (drop insert_pos_in_stmt stmt);
          new_stmt = left @ orderby_clause
      in if right \<noteq> [] then new_stmt @ '' '' @ right else new_stmt)"

text \<open>
  What \<open>process_orderby\<close> appends for the statement from \<open>sel_pos\<close> to its period: the
  statement itself where it has \<open>FOR ALL ENTRIES\<close> or \<open>ORDER BY\<close>, else the tag line and
  the new statement.
\<close>

definition orderby_replacement :: "string \<Rightarrow> string \<Rightarrow> nat \<Rightarrow> nat \<Rightarrow> py_error + string" where
  "orderby_replacement today code sel_pos period =
     (let stmt = slice code sel_pos period in
      if orderby_has_for_all_entries stmt \<or> has_order_by stmt then Inr (slice code sel_pos (period + 1))
      else
        (case get_line_indent_before code sel_pos of
           Inl e \<Rightarrow> Inl e
         | Inr indent \<Rightarrow>
             (case orderby_split_fields (extract_select_list stmt) of
                Inl e \<Rightarrow> Inl e
              | Inr fields \<Rightarrow>
                  (case orderby_clause_of fields of
                     Inl e \<Rightarrow> Inl e
                   | Inr orderby_clause \<Rightarrow>
                       (let new_stmt =
                              py_strip (normalize_spaces_preserve_newlines
                                          (orderby_insert_clause stmt orderby_clause))
                        in Inr (indent @ pwc_tag_line today @ new_stmt @ ''.''))))))"

function process_orderby_loop :: "string \<Rightarrow> string \<Rightarrow> nat \<Rightarrow> string list \<Rightarrow> py_error + string" where
  "process_orderby_loop today code i out =
     (if i < length code then
        (case scan_select code i False False False of
           Inl e \<Rightarrow> Inl e
         | Inr None \<Rightarrow> Inr (concat (out @ [drop i code]))
         | Inr (Some sel_pos) \<Rightarrow>
             (case find_statement_period code sel_pos of
                None \<Rightarrow> Inr (concat (out @ [slice code i sel_pos] @ [drop sel_pos code]))
              | Some period \<Rightarrow>
                  (case orderby_replacement today code sel_pos period of
                     Inl e \<Rightarrow> Inl e
                   | Inr replacement \<Rightarrow>
                       process_orderby_loop today code (period + 1)
                         (out @ [slice code i sel_pos] @ [replacement]))))
      else Inr (concat out))"
  by pat_completeness auto
termination
  by (relation "measure (\<lambda>(today, code, i, out). length code - i)")
     (auto dest!: scan_select_SomeD find_statement_period_SomeD)

declare process_orderby_loop.simps [simp del]

definition process_orderby :: "string \<Rightarrow> string \<Rightarrow> py_error + string" where
  "process_orderby today code = process_orderby_loop today code 0 []"

section \<open>read_statement.py: the Pre-Sort-For-Keyed-Read pass\<close>

lemma index_of_rev_take_SomeD: "index_of c (rev (take e s)) = Some k \<Longrightarrow> k < e"
  by (drule index_of_SomeD) auto

lemma line_start_of_le: "line_start_of s pos \<le> pos"
  by (auto simp: line_start_of_def py_rfind_def split: option.splits
           dest!: index_of_rev_take_SomeD)

text \<open>
  \<open>prev_executable_line_start\<close>.  The reads of \<open>s[k]\<close> after the loop over the blanks are
  not guarded by the length; the two tests for \<open>*\<close> and the double quote read the same
  character.
\<close>

function prev_executable_line_start :: "string \<Rightarrow> nat \<Rightarrow> py_error + nat option" where
  "prev_executable_line_start s i =
     (if i > 0 then
        (let ls = line_start_of s i in
           case blank_run_end s ls i of
             Inl e \<Rightarrow> Inl e
           | Inr k \<Rightarrow>
               if k \<ge> i \<or> (k < length s \<and> (s ! k = NL \<or> s ! k = CR))
               then prev_executable_line_start s (if ls > 0 then ls - 1 else 0)
               else
                 (case py_idx s k of
                    Inl e \<Rightarrow> Inl e
                  | Inr c \<Rightarrow>
                      if c = CHR ''*'' then prev_executable_line_start s (if ls > 0 then ls - 1 else 0)
                      else if c = DQ then prev_executable_line_start s (if ls > 0 then ls - 1 else 0)
                      else Inr (Some k)))
      else Inr None)"
  by pat_completeness auto
termination
proof (relation "measure (\<lambda>(s, i). i)", goal_cases)
  case 1
  show ?case by simp
next
  case (2 s i ls)
  then show ?case using line_start_of_le [of s i] by auto
next
  case (3 s i ls)
  then show ?case using line_start_of_le [of s i] by auto
next
  case (4 s i ls)
  then show ?case using line_start_of_le [of s i] by auto
qed

declare prev_executable_line_start.simps [simp del]

text \<open>
  \<open>itab_re\<close>: \<open>\bread\s+table\s+(<name>|name)\b\<close> under \<open>(?i)\<close>; the matcher returns
  the start and the end of the group \<open>itab\<close>, the end being the end of the match.
\<close>

definition re_first :: "'a option \<Rightarrow> 'a option \<Rightarrow> 'a option" where
  "re_first a b = (case a of Some x \<Rightarrow> Some x | None \<Rightarrow> b)"

definition itab_re :: "string \<Rightarrow> nat \<Rightarrow> (nat \<times> nat) option" where
  "itab_re s i =
     do { _ \<leftarrow> re_guard (re_wb s i);
          a \<leftarrow> re_lit_ci ''read'' s i;
          b \<leftarrow> re_ws_plus s a;
          c \<leftarrow> re_lit_ci ''table'' s b;
          d \<leftarrow> re_ws_plus s c;
          e \<leftarrow> re_first
                 (do { x \<leftarrow> re_char (CHR ''<'') s d;
                       y \<leftarrow> re_ident s x;
                       z \<leftarrow> re_char (CHR ''>'') s y;
                       _ \<leftarrow> re_guard (re_wb s z);
                       Some z })
                 (do { y \<leftarrow> re_ident s d; _ \<leftarrow> re_guard (re_wb s y); Some y });
          Some (d, e) }"

definition extract_itab :: "string \<Rightarrow> string option" where
  "extract_itab stmt = map_option (\<lambda>(m_start, g_start, m_end). slice stmt g_start m_end) (re_search itab_re stmt 0)"

definition read_has_index :: "string \<Rightarrow> bool" where
  "read_has_index stmt = (re_search (re_word ''index'') stmt 0 \<noteq> None)"

text \<open>The four key phrases, each between two \<open>\b\<close>.\<close>

definition with_table_key_re :: "string \<Rightarrow> nat \<Rightarrow> nat option" where
  "with_table_key_re s i =
     do { _ \<leftarrow> re_guard (re_wb s i);
          a \<leftarrow> re_lit_ci ''with'' s i;
          b \<leftarrow> re_ws_plus s a;
          c \<leftarrow> re_lit_ci ''table'' s b;
          d \<leftarrow> re_ws_plus s c;
          e \<leftarrow> re_lit_ci ''key'' s d;
          _ \<leftarrow> re_guard (re_wb s e);
          Some e }"

definition with_key_re :: "string \<Rightarrow> nat \<Rightarrow> nat option" where
  "with_key_re s i =
     do { _ \<leftarrow> re_guard (re_wb s i);
          a \<leftarrow> re_lit_ci ''with'' s i;
          b \<leftarrow> re_ws_plus s a;
          e \<leftarrow> re_lit_ci ''key'' s b;
          _ \<leftarrow> re_guard (re_wb s e);
          Some e }"

definition table_key_re :: "string \<Rightarrow> nat \<Rightarrow> nat option" where
  "table_key_re s i =
     do { _ \<leftarrow> re_guard (re_wb s i);
          a \<leftarrow> re_lit_ci ''table'' s i;
          b \<leftarrow> re_ws_plus s a;
          e \<leftarrow> re_lit_ci ''key'' s b;
          _ \<leftarrow> re_guard (re_wb s e);
          Some e }"

text \<open>
  \<open>read_has_key\<close> searches one pattern with the four phrases as alternatives, tried in
  this order at each start.
\<close>

definition any_key_re :: "string \<Rightarrow> nat \<Rightarrow> nat option" where
  "any_key_re s i =
     re_first (with_table_key_re s i)
       (re_first (with_key_re s i) (re_first (table_key_re s i) (re_word ''key'' s i)))"

definition read_has_key :: "string \<Rightarrow> bool" where
  "read_has_key stmt = (re_search any_key_re stmt 0 \<noteq> None)"

text \<open>
  \<open>re.findall(r'(?is)\b([A-Za-z_]\w*)\s*=', key_section)\<close>: the identifiers directly
  before an equals sign, left to right, each search starting where the last match ended.
\<close>

definition lhs_re :: "string \<Rightarrow> nat \<Rightarrow> (nat \<times> nat) option" where
  "lhs_re s i =
     do { _ \<leftarrow> re_guard (re_wb s i);
          e1 \<leftarrow> re_ident s i;
          e2 \<leftarrow> re_char (CHR ''='') s (re_ws_star s e1);
          Some (e1, e2) }"

lemma re_ident_SomeD: "re_ident s i = Some e \<Longrightarrow> i < e \<and> e \<le> length s"
  using skip_while_ge [of "i + 1" is_word_char s] skip_while_le [of "i + 1" s is_word_char]
  by (auto simp: re_ident_def split: if_splits)

lemma re_char_SomeD: "re_char c s i = Some e \<Longrightarrow> e = i + 1 \<and> i < length s \<and> s ! i = c"
  by (auto simp: re_char_def split: if_splits)

lemma re_ws_star_ge: "i \<le> re_ws_star s i"
  by (simp add: re_ws_star_def skip_while_ge)

lemma lhs_re_SomeD: "lhs_re s i = Some (e1, e2) \<Longrightarrow> i < e1 \<and> e1 < e2"
  using re_ws_star_ge [of e1 s]
  by (auto simp: lhs_re_def Option.bind_eq_Some_conv dest!: re_ident_SomeD re_char_SomeD)

function findall_lhs :: "string \<Rightarrow> nat \<Rightarrow> string list" where
  "findall_lhs s i =
     (if i < length s then
        (case lhs_re s i of
           Some (e1, e2) \<Rightarrow> slice s i e1 # findall_lhs s e2
         | None \<Rightarrow> findall_lhs s (i + 1))
      else [])"
  by pat_completeness auto
termination
  by (relation "measure (\<lambda>(s, i). length s - i)")
     (auto intro!: diff_less_mono2 dest!: lhs_re_SomeD)

declare findall_lhs.simps [simp del]

definition extract_key_fields :: "string \<Rightarrow> string list" where
  "extract_key_fields stmt =
     (let search_from = (case re_search itab_re stmt 0 of Some (m_start, g_start, m_end) \<Rightarrow> m_end | None \<Rightarrow> 0);
          rest = drop search_from stmt;
          m_key = re_first (re_search with_table_key_re rest 0)
                    (re_first (re_search with_key_re rest 0)
                       (re_first (re_search table_key_re rest 0) (re_search (re_word ''key'') rest 0)))
      in case m_key of
           None \<Rightarrow> []
         | Some (k_start, k_end) \<Rightarrow>
             (let key_start0 = search_from + k_end;
                  key_start = (case re_search (re_word ''components'') (drop key_start0 stmt) 0 of
                                 Some (c_start, c_end) \<Rightarrow> key_start0 + c_end
                               | None \<Rightarrow> key_start0);
                  key_section = drop key_start stmt;
                  candidates = findall_lhs key_section 0
              in dedupe_ci []
                   (filter (\<lambda>f. py_lower f \<notin> set [''with'', ''table'', ''key'', ''components'']) candidates)))"

text \<open>\<open>re.match(r'(?is)^sort\s+(<\w+>|[A-Za-z_]\w*)\b', line)\<close>: the captured name.\<close>

definition re_word_chars_plus :: "string \<Rightarrow> nat \<Rightarrow> nat option" where
  "re_word_chars_plus s i =
     (if i < length s \<and> is_word_char (s ! i) then Some (skip_while is_word_char s i) else None)"

definition read_sort_line_re :: "string \<Rightarrow> string option" where
  "read_sort_line_re line =
     do { a \<leftarrow> re_lit_ci ''sort'' line 0;
          b \<leftarrow> re_ws_plus line a;
          e \<leftarrow> re_first
                 (do { x \<leftarrow> re_char (CHR ''<'') line b;
                       y \<leftarrow> re_word_chars_plus line x;
                       z \<leftarrow> re_char (CHR ''>'') line y;
                       _ \<leftarrow> re_guard (re_wb line z);
                       Some z })
                 (do { y \<leftarrow> re_ident line b; _ \<leftarrow> re_guard (re_wb line y); Some y });
          Some (slice line b e) }"

definition is_sort_immediately_before :: "string \<Rightarrow> nat \<Rightarrow> string \<Rightarrow> py_error + bool" where
  "is_sort_immediately_before s read_pos itab =
     (case prev_executable_line_start s read_pos of
        Inl e \<Rightarrow> Inl e
      | Inr None \<Rightarrow> Inr False
      | Inr (Some prev_start) \<Rightarrow>
          (case read_sort_line_re (code_line_at s prev_start) of
             None \<Rightarrow> Inr False
           | Some name \<Rightarrow> Inr (py_lower name = py_lower itab)))"

text \<open>
  The scanner of the main loop of \<open>process_read\<close>: the next \<open>read\<close> followed, after white
  space, by \<open>table\<close>, outside strings and comments.
\<close>

function scan_read :: "string \<Rightarrow> nat \<Rightarrow> bool \<Rightarrow> bool \<Rightarrow> bool \<Rightarrow> nat option" where
  "scan_read code scan in_sq in_bt in_tpl =
     (let n = length code in
      if scan < n then
        (let c = code ! scan in
           if \<not> (in_sq \<or> in_bt \<or> in_tpl) then
             (if c = DQ then
                (let e = skip_line_comment code scan in
                   scan_read code (if e < n then e + 1 else e) in_sq in_bt in_tpl)
              else if c = CHR ''*'' \<and> (scan = 0 \<or> code ! (scan - 1) = NL) then
                (let e = skip_full_line_star_comment code scan in
                   scan_read code (if e < n then e + 1 else e) in_sq in_bt in_tpl)
              else if c = SQ then scan_read code (scan + 1) True in_bt in_tpl
              else if c = BQ then scan_read code (scan + 1) in_sq True in_tpl
              else if c = CHR ''|'' then scan_read code (scan + 1) in_sq in_bt True
              else if match_kw_at code scan ''read'' \<and>
                      match_kw_at code (skip_while is_ws4 code (scan + 4)) ''table''
                then Some scan
              else scan_read code (scan + 1) in_sq in_bt in_tpl)
           else if in_sq then
             (if c = SQ then
                (if scan + 1 < n \<and> code ! (scan + 1) = SQ then scan_read code (scan + 2) in_sq in_bt in_tpl
                 else scan_read code (scan + 1) False in_bt in_tpl)
              else scan_read code (scan + 1) in_sq in_bt in_tpl)
           else if in_bt then
             (if c = BQ then
                (if scan + 1 < n \<and> code ! (scan + 1) = BQ then scan_read code (scan + 2) in_sq in_bt in_tpl
                 else scan_read code (scan + 1) in_sq False in_tpl)
              else scan_read code (scan + 1) in_sq in_bt in_tpl)
           else
             (if c = CHR ''|'' then
                (if scan + 1 < n \<and> code ! (scan + 1) = CHR ''|'' then scan_read code (scan + 2) in_sq in_bt in_tpl
                 else scan_read code (scan + 1) in_sq in_bt False)
              else scan_read code (scan + 1) in_sq in_bt in_tpl))
      else None)"
  by pat_completeness auto
termination
  by (relation "measure (\<lambda>(code, k, a, b, c). length code - k)")
     (auto intro!: diff_less_mono2 skip_line_comment_ge skip_line_comment_gt
           simp: less_Suc_eq_le skip_star_comment_eq)

declare scan_read.simps [simp del]

lemma scan_read_SomeD:
  "scan_read code k a b c = Some x \<Longrightarrow> k \<le> x \<and> x < length code"
proof (induction "length code - k" arbitrary: k a b c rule: less_induct)
  case less
  have IH: "\<And>j a b c. scan_read code j a b c = Some x \<Longrightarrow> k < j \<Longrightarrow> k < length code
              \<Longrightarrow> j \<le> x \<and> x < length code"
    by (rule less.hyps) auto
  from less.prems show ?case
    apply (subst (asm) scan_read.simps)
    apply (simp only: Let_def skip_star_comment_eq split: if_splits)
    using skip_line_comment_ge [of k code]
    by (auto dest!: IH intro!: skip_line_comment_gt)
qed

text \<open>
  The text that \<open>process_read\<close> puts before a \<open>READ TABLE\<close> statement: empty where the
  source appends only the statement (no table name, neither \<open>INDEX\<close> nor a key, or a
  \<open>SORT\<close> of the table on the previous executable line), else the \<open>SORT\<close> statement, a
  newline and the tag line.
\<close>

definition read_insertion :: "string \<Rightarrow> string \<Rightarrow> nat \<Rightarrow> nat \<Rightarrow> py_error + string" where
  "read_insertion today code read_pos period_pos =
     (let read_stmt = slice code read_pos period_pos in
      case extract_itab read_stmt of
        None \<Rightarrow> Inr []
      | Some itab \<Rightarrow>
          if itab = [] then Inr []
          else
            (let has_index = read_has_index read_stmt; has_key = read_has_key read_stmt in
               if \<not> (has_index \<or> has_key) then Inr []
               else
                 (case is_sort_immediately_before code read_pos itab of
                    Inl e \<Rightarrow> Inl e
                  | Inr True \<Rightarrow> Inr []
                  | Inr False \<Rightarrow>
                      (case get_line_indent_before code read_pos of
                         Inl e \<Rightarrow> Inl e
                       | Inr indent \<Rightarrow>
                           (let fields = extract_key_fields read_stmt;
                                sort_stmt =
                                  (if has_index then indent @ ''SORT '' @ itab @ ''.''
                                   else if fields \<noteq> []
                                     then indent @ ''SORT '' @ itab @ '' BY '' @
                                          py_join '' '' (dedupe_ci [] fields) @ ''.''
                                   else indent @ ''SORT '' @ itab @ ''.'')
                            in Inr (sort_stmt @ [NL] @ indent @ pwc_tag_line today))))))"

function process_read_loop :: "string \<Rightarrow> string \<Rightarrow> nat \<Rightarrow> string list \<Rightarrow> py_error + string" where
  "process_read_loop today code i out_parts =
     (if i < length code then
        (case scan_read code i False False False of
           None \<Rightarrow> Inr (concat (out_parts @ [drop i code]))
         | Some read_pos \<Rightarrow>
             (case find_statement_period code read_pos of
                None \<Rightarrow> Inr (concat (out_parts @ [slice code i read_pos] @ [drop read_pos code]))
              | Some period_pos \<Rightarrow>
                  (case read_insertion today code read_pos period_pos of
                     Inl e \<Rightarrow> Inl e
                   | Inr insertion \<Rightarrow>
                       process_read_loop today code (period_pos + 1)
                         (out_parts @ [slice code i read_pos] @ [insertion] @
                          [slice code read_pos (period_pos + 1)]))))
      else Inr (concat out_parts))"
  by pat_completeness auto
termination
  by (relation "measure (\<lambda>(today, code, i, out_parts). length code - i)")
     (auto dest!: scan_read_SomeD find_statement_period_SomeD)

declare process_read_loop.simps [simp del]

definition process_read :: "string \<Rightarrow> string \<Rightarrow> py_error + string" where
  "process_read today code = process_read_loop today code 0 []"

section \<open>The pipeline\<close>

text \<open>
  \<open>process_abap_code\<close> of \<open>app.py\<close> on the source text: the four passes in order, each on
  the output of the one before, all with the same date.
\<close>

definition bind_result :: "py_error + 'a \<Rightarrow> ('a \<Rightarrow> py_error + 'b) \<Rightarrow> py_error + 'b" where
  "bind_result r f = (case r of Inl e \<Rightarrow> Inl e | Inr v \<Rightarrow> f v)"

definition remediate :: "string \<Rightarrow> string \<Rightarrow> py_error + string" where
  "remediate today code =
     bind_result (process_select today code) (\<lambda>c1.
     bind_result (process_sort today c1) (\<lambda>c2.
     bind_result (process_orderby today c2) (\<lambda>c3.
     process_read today c3)))"

section \<open>No pass raises\<close>

text \<open>
  The checked reads never fail: each is reached only with an index below the length.
  The lemmas follow the call structure, from the indentation loop up to the four main
  loops.
\<close>

lemma py_idx_Inr: "i < length xs \<Longrightarrow> py_idx xs i = Inr (xs ! i)"
  by (simp add: py_idx_def)

lemma indent_loop_Inr: "pos \<le> length code \<Longrightarrow> \<exists>r. indent_loop code k pos acc = Inr r"
proof (induction "pos - k" arbitrary: k acc rule: less_induct)
  case less
  show ?case
  proof (cases "k < pos")
    case True
    then have "py_idx code k = Inr (code ! k)" using less.prems by (simp add: py_idx_Inr)
    moreover have "\<exists>r. indent_loop code (k + 1) pos (acc @ [code ! k]) = Inr r"
      using True less.prems by (intro less.hyps) auto
    ultimately show ?thesis by (subst indent_loop.simps) (auto simp: True)
  next
    case False
    then show ?thesis by (subst indent_loop.simps) simp
  qed
qed

lemma get_line_indent_before_Inr: "pos \<le> length code \<Longrightarrow> \<exists>r. get_line_indent_before code pos = Inr r"
  unfolding get_line_indent_before_def by (rule indent_loop_Inr)

lemma blank_run_end_Inr:
  "pos \<le> length s \<Longrightarrow> \<exists>k'. blank_run_end s k pos = Inr k' \<and> k \<le> k' \<and> (k \<le> pos \<longrightarrow> k' \<le> pos)"
proof (induction "pos - k" arbitrary: k rule: less_induct)
  case less
  show ?case
  proof (cases "k < pos")
    case True
    then have "py_idx s k = Inr (s ! k)" using less.prems by (simp add: py_idx_Inr)
    moreover have "\<exists>k'. blank_run_end s (k + 1) pos = Inr k' \<and> k + 1 \<le> k' \<and> (k + 1 \<le> pos \<longrightarrow> k' \<le> pos)"
      using True less.prems by (intro less.hyps) auto
    ultimately show ?thesis using True by (subst blank_run_end.simps) auto
  next
    case False
    then show ?thesis by (subst blank_run_end.simps) simp
  qed
qed

lemma at_statement_lead_Inr: "pos \<le> length s \<Longrightarrow> \<exists>b. at_statement_lead s pos = Inr b"
  using blank_run_end_Inr [of pos s "line_start_of s pos"]
  by (auto simp: at_statement_lead_def)

lemma prev_executable_line_start_Inr:
  "i \<le> length s \<Longrightarrow> \<exists>r. prev_executable_line_start s i = Inr r"
proof (induction i rule: less_induct)
  case (less i)
  show ?case
  proof (cases "i > 0")
    case False
    then show ?thesis by (subst prev_executable_line_start.simps) simp
  next
    case True
    define ls where "ls = line_start_of s i"
    have ls: "ls \<le> i" unfolding ls_def by (rule line_start_of_le)
    obtain k where k: "blank_run_end s ls i = Inr k" "ls \<le> k" "k \<le> i"
      using blank_run_end_Inr [of i s ls] less.prems ls by auto
    have IH: "\<exists>r. prev_executable_line_start s (if ls > 0 then ls - 1 else 0) = Inr r"
      using True ls less.prems by (intro less.IH) auto
    have idx: "k < i \<Longrightarrow> py_idx s k = Inr (s ! k)" using less.prems by (simp add: py_idx_Inr)
    show ?thesis
      apply (subst prev_executable_line_start.simps)
      using True k IH idx by (auto simp: Let_def ls_def [symmetric])
  qed
qed


lemma not_isl_iff: "\<not> isl x \<longleftrightarrow> (\<exists>v. x = Inr v)"
  by (cases x) auto

lemma scan_select_ok: "\<not> isl (scan_select code k a b c)"
proof (induction "length code - k" arbitrary: k a b c rule: less_induct)
  case less
  show ?case
  proof (cases "k < length code")
    case False
    then show ?thesis by (subst scan_select.simps) simp
  next
    case True
    have rec: "\<And>j a b c. k < j \<Longrightarrow> \<not> isl (scan_select code j a b c)"
      using True by (intro less.hyps) auto
    obtain lead where lead: "at_statement_lead code k = Inr lead"
      using at_statement_lead_Inr [of k code] True by auto
    have ge: "k \<le> skip_line_comment code k" using True by (simp add: skip_line_comment_ge)
    have gt: "code ! k \<noteq> NL \<Longrightarrow> k < skip_line_comment code k"
      using True by (simp add: skip_line_comment_gt)
    show ?thesis
      apply (subst scan_select.simps)
      apply (simp only: Let_def skip_star_comment_eq lead sum.case)
      using ge gt by (simp add: rec True)
  qed
qed


lemma split_ws_nonempty: "cur \<noteq> [] \<Longrightarrow> split_ws cur s \<noteq> []"
  by (induction s arbitrary: cur) auto

lemma py_split_nonempty: "s \<noteq> [] \<Longrightarrow> \<not> py_isspace (hd s) \<Longrightarrow> py_split s \<noteq> []"
  by (cases s) (auto simp: py_split_def split_ws_nonempty)

lemma py_strip_hd: "py_strip s \<noteq> [] \<Longrightarrow> \<not> py_isspace (hd (py_strip s))"
  unfolding py_strip_def py_lstrip_def by (rule hd_dropWhile)

lemma py_split_strip_idx:
  "py_strip s \<noteq> [] \<Longrightarrow> py_idx (py_split (py_strip s)) 0 = Inr (hd (py_split (py_strip s)))"
  using py_split_nonempty [of "py_strip s"] py_strip_hd [of s]
  by (auto simp: py_idx_def hd_conv_nth)

lemma split_on_nonempty: "split_on sep cur s \<noteq> []"
  by (induction s arbitrary: cur) auto

lemma py_last_split_on: "py_last (py_split_on sep s) = Inr (last (py_split_on sep s))"
  by (simp add: py_last_def py_split_on_def split_on_nonempty)

lemma sort_regroup_ok: "\<not> isl (sort_regroup tokens k items)"
proof (induction "length tokens - k" arbitrary: k items rule: less_induct)
  case less
  have rec: "\<And>j items. k < j \<Longrightarrow> k < length tokens \<Longrightarrow> \<not> isl (sort_regroup tokens j items)"
    by (rule less.hyps) auto
  show ?case
    by (subst sort_regroup.simps) (auto simp: py_idx_def rec)
qed

lemma sort_alias_of_ok: "\<not> isl (sort_alias_of t)"
  by (simp add: sort_alias_of_def Let_def py_split_strip_idx split: option.splits prod.splits)

lemma get_line_indent_before_ok: "pos \<le> length code \<Longrightarrow> \<not> isl (get_line_indent_before code pos)"
  using get_line_indent_before_Inr [of pos code] by (auto simp: not_isl_iff)

lemma sort_plain_name_ok: "\<not> isl (sort_plain_name t)"
  by (simp add: sort_plain_name_def py_last_split_on Let_def)

lemma sort_field_of_item_ok: "\<not> isl (sort_field_of_item it)"
proof -
  obtain r where r: "sort_alias_of (sort_unwrap (py_strip it)) = Inr r"
    using sort_alias_of_ok [of "sort_unwrap (py_strip it)"] by (auto simp: not_isl_iff)
  show ?thesis
    by (cases r) (simp_all add: sort_field_of_item_def Let_def r sort_plain_name_ok)
qed

lemma sort_fields_of_items_ok: "\<not> isl (sort_fields_of_items its)"
proof (induction its)
  case Nil
  show ?case by simp
next
  case (Cons it its)
  then show ?case using sort_field_of_item_ok [of it]
    by (auto simp: not_isl_iff)
qed

lemma isl_case: "isl (case x of Inl e \<Rightarrow> Inl e | Inr v \<Rightarrow> f v) \<longleftrightarrow> isl x \<or> (\<exists>v. x = Inr v \<and> isl (f v))"
  by (cases x) auto

lemma sort_split_fields_ok: "\<not> isl (sort_split_fields seg)"
  unfolding sort_split_fields_def Let_def
  by (simp add: isl_case sort_regroup_ok sort_fields_of_items_ok split: prod.splits)

lemma sort_insertion_ok: "sel_pos \<le> length code \<Longrightarrow> \<not> isl (sort_insertion today code sel_pos period_pos)"
  unfolding sort_insertion_def Let_def
  by (auto simp add: isl_case sort_split_fields_ok get_line_indent_before_ok split: option.splits)

lemma process_sort_loop_ok: "\<not> isl (process_sort_loop today code i parts)"
proof (induction "length code - i" arbitrary: i parts rule: less_induct)
  case less
  have rec: "\<And>j parts. i \<le> j \<Longrightarrow> j < length code \<Longrightarrow> \<not> isl (process_sort_loop today code (Suc j) parts)"
    by (rule less.hyps) auto
  show ?case
    apply (subst process_sort_loop.simps)
    
    by (auto simp: isl_case rec scan_select_ok sort_insertion_ok split: option.splits scan_result.splits
             dest!: scan_select_SomeD find_statement_period_SomeD)
qed

lemma process_sort_ok: "\<exists>out. process_sort today code = Inr out"
  using process_sort_loop_ok [of today code 0 "[]"] by (simp add: process_sort_def not_isl_iff)

lemma orderby_alias_or_self_ok: "\<not> isl (orderby_alias_or_self it)"
  by (simp add: orderby_alias_or_self_def Let_def isl_case py_split_strip_idx split: option.splits prod.splits)

lemma orderby_comma_items_ok: "\<not> isl (orderby_comma_items its)"
proof (induction its)
  case Nil
  show ?case by simp
next
  case (Cons it its)
  then show ?case using orderby_alias_or_self_ok [of it]
    by (auto simp: not_isl_iff)
qed

lemma orderby_split_fields_ok: "\<not> isl (orderby_split_fields seg)"
  unfolding orderby_split_fields_def Let_def
  by (simp add: isl_case orderby_comma_items_ok split: prod.splits)

lemma orderby_clean_field_ok: "\<not> isl (orderby_clean_field f)"
  unfolding orderby_clean_field_def Let_def
  by (simp add: isl_case orderby_alias_or_self_ok)

lemma orderby_clean_fields_ok: "\<not> isl (orderby_clean_fields fs)"
proof (induction fs)
  case Nil
  show ?case by simp
next
  case (Cons f fs)
  then show ?case using orderby_clean_field_ok [of f]
    by (auto simp: not_isl_iff)
qed

lemma orderby_clause_of_ok: "\<not> isl (orderby_clause_of fields)"
  unfolding orderby_clause_of_def Let_def
  by (simp add: isl_case orderby_clean_fields_ok)

lemma orderby_replacement_ok:
  "sel_pos \<le> length code \<Longrightarrow> \<not> isl (orderby_replacement today code sel_pos period)"
  unfolding orderby_replacement_def Let_def
  by (auto simp add: isl_case orderby_split_fields_ok orderby_clause_of_ok get_line_indent_before_ok)

lemma process_orderby_loop_ok: "\<not> isl (process_orderby_loop today code i parts)"
proof (induction "length code - i" arbitrary: i parts rule: less_induct)
  case less
  have rec: "\<And>j parts. i \<le> j \<Longrightarrow> j < length code \<Longrightarrow> \<not> isl (process_orderby_loop today code (Suc j) parts)"
    by (rule less.hyps) auto
  show ?case
    apply (subst process_orderby_loop.simps)
    
    by (auto simp: isl_case rec scan_select_ok orderby_replacement_ok split: option.splits scan_result.splits
             dest!: scan_select_SomeD find_statement_period_SomeD)
qed

lemma process_orderby_ok: "\<exists>out. process_orderby today code = Inr out"
  using process_orderby_loop_ok [of today code 0 "[]"] by (simp add: process_orderby_def not_isl_iff)

lemma is_sort_immediately_before_ok:
  "read_pos \<le> length s \<Longrightarrow> \<not> isl (is_sort_immediately_before s read_pos itab)"
  using prev_executable_line_start_Inr [of read_pos s]
  unfolding is_sort_immediately_before_def
  by (auto split: option.splits)

lemma read_insertion_ok:
  "read_pos \<le> length code \<Longrightarrow> \<not> isl (read_insertion today code read_pos period_pos)"
  unfolding read_insertion_def Let_def
  by (auto simp: isl_case is_sort_immediately_before_ok get_line_indent_before_ok
           split: option.splits bool.splits)

lemma process_read_loop_ok: "\<not> isl (process_read_loop today code i parts)"
proof (induction "length code - i" arbitrary: i parts rule: less_induct)
  case less
  have rec: "\<And>j parts. i \<le> j \<Longrightarrow> j < length code \<Longrightarrow> \<not> isl (process_read_loop today code (Suc j) parts)"
    by (rule less.hyps) auto
  show ?case
    apply (subst process_read_loop.simps)
    
    by (auto simp: isl_case rec read_insertion_ok split: option.splits scan_result.splits
             dest!: scan_read_SomeD find_statement_period_SomeD)
qed

lemma process_read_ok: "\<exists>out. process_read today code = Inr out"
  using process_read_loop_ok [of today code 0 "[]"] by (simp add: process_read_def not_isl_iff)

lemma process_select_loop_ok: "\<not> isl (process_select_loop today code i parts)"
proof (induction "length code - i" arbitrary: i parts rule: less_induct)
  case less
  have rec: "\<And>j parts. i \<le> j \<Longrightarrow> j < length code \<Longrightarrow> \<not> isl (process_select_loop today code (Suc j) parts)"
    by (rule less.hyps) auto
  show ?case
    apply (subst process_select_loop.simps)
    
    by (auto simp: isl_case rec get_line_indent_before_ok split: option.splits scan_result.splits
             dest!: select_scan_FoundD select_find_statement_period_SomeD)
qed

lemma process_select_ok: "\<exists>out. process_select today code = Inr out"
  using process_select_loop_ok [of today code 0 "[]"] by (simp add: process_select_def not_isl_iff)

section \<open>Insertion only\<close>


lemma slice_append_drop: "i \<le> p \<Longrightarrow> slice s i p @ drop p s = drop i s"
proof -
  assume "i \<le> p"
  then have "drop p s = drop (p - i) (drop i s)" by simp
  then show ?thesis unfolding slice_def by (simp only: append_take_drop_id)
qed

lemma slice_append_slice: "i \<le> p \<Longrightarrow> p \<le> q \<Longrightarrow> slice s i p @ slice s p q = slice s i q"
proof -
  assume a: "i \<le> p" "p \<le> q"
  have "take (p - i) (drop i s) @ take (q - p) (drop (p - i) (drop i s)) = take ((p - i) + (q - p)) (drop i s)"
    by (simp only: take_add)
  then show ?thesis using a by (simp add: slice_def)
qed

lemma subseq_insert: "subseq b r \<Longrightarrow> subseq (a @ b) (a @ ins @ r)"
  by (intro list_emb_append_mono list_emb_append2) simp_all

lemma process_sort_loop_frame:
  "\<exists>r. process_sort_loop today code i parts = Inr (concat parts @ r) \<and> subseq (drop i code) r"
proof (induction "length code - i" arbitrary: i parts rule: less_induct)
  case less
  show ?case
  proof (cases "i < length code")
    case False
    then show ?thesis by (subst process_sort_loop.simps) simp
  next
    case True
    obtain sc where sc: "scan_select code i False False False = Inr sc"
      using scan_select_ok [of code i False False False] by (auto simp: not_isl_iff)
    show ?thesis
    proof (cases sc)
      case None
      then show ?thesis using True sc by (subst process_sort_loop.simps) simp
    next
      case (Some p)
      then have p: "i \<le> p" "p < length code" using sc scan_select_SomeD by auto
      show ?thesis
      proof (cases "find_statement_period code p")
        case None
        then show ?thesis using True sc Some p
          by (subst process_sort_loop.simps) (simp add: slice_append_drop)
      next
        case (Some q)
        then have q: "p \<le> q" "q < length code" using find_statement_period_SomeD by auto
        obtain ins where ins: "sort_insertion today code p q = Inr ins"
          using sort_insertion_ok [of p code today q] p by (auto simp: not_isl_iff)
        let ?parts = "parts @ [slice code i p] @ [slice code p (q + 1) @ ins]"
        have m: "length code - (q + 1) < length code - i" using p q by linarith
        obtain r where r: "process_sort_loop today code (q + 1) ?parts = Inr (concat ?parts @ r)"
            "subseq (drop (q + 1) code) r"
          using less.hyps [OF m, of ?parts] by blast
        have eq: "process_sort_loop today code i parts = Inr (concat ?parts @ r)"
          using True sc \<open>sc = Some p\<close> Some ins r(1) by (subst process_sort_loop.simps) simp
        have "drop i code = slice code i (q + 1) @ drop (q + 1) code"
          using p q by (simp add: slice_append_drop)
        moreover have "slice code i p @ slice code p (q + 1) = slice code i (q + 1)"
          using p q by (intro slice_append_slice) auto
        ultimately have "subseq (drop i code) ((slice code i p @ slice code p (q + 1)) @ ins @ r)"
          using r(2) by (simp only: subseq_insert)
        then show ?thesis using eq by simp
      qed
    qed
  qed
qed





section \<open>Unterminated statements and the empty text\<close>

lemma select_unterminated:
  "i < length code \<Longrightarrow> select_scan code i False False False = Found p \<Longrightarrow>
   select_find_statement_period code p = None \<Longrightarrow>
   process_select_loop today code i parts = Inr (concat parts @ drop i code)"
  by (subst process_select_loop.simps) (auto dest!: select_scan_FoundD simp: slice_append_drop)

lemma sort_unterminated:
  "i < length code \<Longrightarrow> scan_select code i False False False = Inr (Some p) \<Longrightarrow>
   find_statement_period code p = None \<Longrightarrow>
   process_sort_loop today code i parts = Inr (concat parts @ drop i code)"
  by (subst process_sort_loop.simps) (auto dest!: scan_select_SomeD simp: slice_append_drop)

lemma orderby_unterminated:
  "i < length code \<Longrightarrow> scan_select code i False False False = Inr (Some p) \<Longrightarrow>
   find_statement_period code p = None \<Longrightarrow>
   process_orderby_loop today code i parts = Inr (concat parts @ drop i code)"
  by (subst process_orderby_loop.simps) (auto dest!: scan_select_SomeD simp: slice_append_drop)

lemma read_unterminated:
  "i < length code \<Longrightarrow> scan_read code i False False False = Some p \<Longrightarrow>
   find_statement_period code p = None \<Longrightarrow>
   process_read_loop today code i parts = Inr (concat parts @ drop i code)"
  by (subst process_read_loop.simps) (auto dest!: scan_read_SomeD simp: slice_append_drop)

lemma passes_on_empty:
  "process_select today [] = Inr []" "process_sort today [] = Inr []"
  "process_orderby today [] = Inr []" "process_read today [] = Inr []"
  by (simp_all add: process_select_def process_sort_def process_orderby_def process_read_def
        process_select_loop.simps process_sort_loop.simps process_orderby_loop.simps
        process_read_loop.simps)

text \<open>
  C3.  Each of the four passes returns a text for every input and never fails with
  \<open>IndexError\<close>.  When the statement found from the cursor \<open>i\<close> has no period before the end
  of the text, the loop returns what it has emitted so far followed by the text from
  \<open>i\<close> on, unchanged, and scans no further.  The empty text is returned as it is.
\<close>

theorem passes_never_raise:
  "(\<exists>out. process_select today code = Inr out) \<and>
   (\<exists>out. process_sort today code = Inr out) \<and>
   (\<exists>out. process_orderby today code = Inr out) \<and>
   (\<exists>out. process_read today code = Inr out) \<and>
   (i < length code \<and> select_scan code i False False False = Found p1 \<and>
      select_find_statement_period code p1 = None \<longrightarrow>
      process_select_loop today code i parts = Inr (concat parts @ drop i code)) \<and>
   (i < length code \<and> scan_select code i False False False = Inr (Some p2) \<and>
      find_statement_period code p2 = None \<longrightarrow>
      process_sort_loop today code i parts = Inr (concat parts @ drop i code) \<and>
      process_orderby_loop today code i parts = Inr (concat parts @ drop i code)) \<and>
   (i < length code \<and> scan_read code i False False False = Some p3 \<and>
      find_statement_period code p3 = None \<longrightarrow>
      process_read_loop today code i parts = Inr (concat parts @ drop i code)) \<and>
   process_select today [] = Inr [] \<and> process_sort today [] = Inr [] \<and>
   process_orderby today [] = Inr [] \<and> process_read today [] = Inr []"
  using process_select_ok [of today code] process_sort_ok [of today code]
    process_orderby_ok [of today code] process_read_ok [of today code]
    select_unterminated [of i code p1 today parts] sort_unterminated [of i code p2 today parts]
    orderby_unterminated [of i code p2 today parts] read_unterminated [of i code p3 today parts]
    passes_on_empty [of today]
  by blast

theorem passes_never_raise_witness:
  \<open>select_scan ''SELECT SINGLE a READ TABLE t'' 0 False False False = Found 0 \<and>
   select_find_statement_period ''SELECT SINGLE a READ TABLE t'' 0 = None \<and>
   scan_select ''SELECT SINGLE a READ TABLE t'' 0 False False False = Inr (Some 0) \<and>
   scan_read ''SELECT SINGLE a READ TABLE t'' 0 False False False = Some 16 \<and>
   find_statement_period ''SELECT SINGLE a READ TABLE t'' 0 = None \<and>
   find_statement_period ''SELECT SINGLE a READ TABLE t'' 16 = None \<and>
   process_select_loop ''2024-06-01'' ''SELECT SINGLE a READ TABLE t'' 0 [] = Inr ''SELECT SINGLE a READ TABLE t'' \<and>
   process_sort_loop ''2024-06-01'' ''SELECT SINGLE a READ TABLE t'' 0 [] = Inr ''SELECT SINGLE a READ TABLE t'' \<and>
   process_orderby_loop ''2024-06-01'' ''SELECT SINGLE a READ TABLE t'' 0 [] = Inr ''SELECT SINGLE a READ TABLE t'' \<and>
   process_read_loop ''2024-06-01'' ''SELECT SINGLE a READ TABLE t'' 0 [] = Inr ''SELECT SINGLE a READ TABLE t''\<close>
proof -
  let ?c = \<open>''SELECT SINGLE a READ TABLE t''\<close>
  have h0: "0 < length ?c" by simp
  have h1: "select_scan ?c 0 False False False = Found 0" by code_simp
  have h2: "select_find_statement_period ?c 0 = None" by code_simp
  have h3: "scan_select ?c 0 False False False = Inr (Some 0)" by code_simp
  have h4: "scan_read ?c 0 False False False = Some 16" by code_simp
  have h5: "find_statement_period ?c 0 = None" by code_simp
  have h6: "find_statement_period ?c 16 = None" by code_simp
  show ?thesis
    using h0 h1 h2 h3 h4 h5 h6
      passes_never_raise [of "''2024-06-01''" ?c 0 0 "[]" 0 16]
    by simp
qed

section \<open>Termination\<close>

lemma select_loop_total: "All process_select_loop_dom"
  by (rule "process_select_loop.termination" [of "measure (\<lambda>(today, code, i, out_parts). length code - i)"])
     (auto dest!: select_scan_FoundD select_find_statement_period_SomeD)

lemma sort_loop_total: "All process_sort_loop_dom"
  by (rule "process_sort_loop.termination" [of "measure (\<lambda>(today, code, i, out_parts). length code - i)"])
     (auto dest!: scan_select_SomeD find_statement_period_SomeD)

lemma orderby_loop_total: "All process_orderby_loop_dom"
  by (rule "process_orderby_loop.termination" [of "measure (\<lambda>(today, code, i, out_parts). length code - i)"])
     (auto dest!: scan_select_SomeD find_statement_period_SomeD)

lemma read_loop_total: "All process_read_loop_dom"
  by (rule "process_read_loop.termination" [of "measure (\<lambda>(today, code, i, out_parts). length code - i)"])
     (auto dest!: scan_read_SomeD find_statement_period_SomeD)

lemma select_scan_total: "All select_scan_dom"
  by (rule "select_scan.termination" [of "measure (\<lambda>(code, k, a, b, c). length code - k)"])
     (auto intro!: diff_less_mono2 dest!: py_find_SomeD)

lemma scan_select_total: "All scan_select_dom"
  by (rule "scan_select.termination" [of "measure (\<lambda>(code, k, a, b, c). length code - k)"])
     (auto intro!: diff_less_mono2 skip_line_comment_ge skip_line_comment_gt
           simp: less_Suc_eq_le skip_star_comment_eq)

lemma scan_read_total: "All scan_read_dom"
  by (rule "scan_read.termination" [of "measure (\<lambda>(code, k, a, b, c). length code - k)"])
     (auto intro!: diff_less_mono2 skip_line_comment_ge skip_line_comment_gt
           simp: less_Suc_eq_le skip_star_comment_eq)

lemma find_period_loop_total: "All find_period_loop_dom"
  by (rule "find_period_loop.termination" [of "measure (\<lambda>(s, i, a, b, c). length s - i)"])
     (auto intro!: diff_less_mono2 skip_line_comment_gt simp: skip_star_comment_eq)

lemma select_period_loop_total: "All select_period_loop_dom"
  by (rule "select_period_loop.termination" [of "measure (\<lambda>(s, i, a, b, c). length s - i)"])
     (auto intro!: diff_less_mono2 skip_not_newline_gt)

text \<open>
  The scanner is inside a literal or template whose closing delimiter does not occur in
  the rest of the text; the flags are read in the order in which the scanners test them.
\<close>

definition open_state :: "string \<Rightarrow> nat \<Rightarrow> bool \<Rightarrow> bool \<Rightarrow> bool \<Rightarrow> bool" where
  "open_state code k in_sq in_bt in_tpl =
     ((in_sq \<and> SQ \<notin> set (drop k code)) \<or>
      (\<not> in_sq \<and> in_bt \<and> BQ \<notin> set (drop k code)) \<or>
      (\<not> in_sq \<and> \<not> in_bt \<and> in_tpl \<and> CHR ''|'' \<notin> set (drop k code)))"

lemma open_state_step:
  "open_state code k a b c \<Longrightarrow> k < length code \<Longrightarrow>
   open_state code (k + 1) a b c \<and> (a \<longrightarrow> code ! k \<noteq> SQ) \<and> (\<not> a \<and> b \<longrightarrow> code ! k \<noteq> BQ) \<and>
   (\<not> a \<and> \<not> b \<and> c \<longrightarrow> code ! k \<noteq> CHR ''|'') \<and> (a \<or> b \<or> c)"
  unfolding open_state_def
  by (auto simp: Cons_nth_drop_Suc [symmetric] simp del: drop_Suc_Cons)

lemma scan_read_open:
  "open_state code k a b c \<Longrightarrow> scan_read code k a b c = None"
proof (induction "length code - k" arbitrary: k rule: less_induct)
  case less
  show ?case
  proof (cases "k < length code")
    case False
    then show ?thesis by (subst scan_read.simps) simp
  next
    case True
    note st = open_state_step [OF less.prems True]
    have "scan_read code (k + 1) a b c = None"
      using st True by (intro less.hyps) auto
    then show ?thesis using st True
      by (subst scan_read.simps) (auto simp: Let_def)
  qed
qed

lemma scan_select_open:
  "open_state code k a b c \<Longrightarrow> scan_select code k a b c = Inr None"
proof (induction "length code - k" arbitrary: k rule: less_induct)
  case less
  show ?case
  proof (cases "k < length code")
    case False
    then show ?thesis by (subst scan_select.simps) simp
  next
    case True
    note st = open_state_step [OF less.prems True]
    have "scan_select code (k + 1) a b c = Inr None"
      using st True by (intro less.hyps) auto
    then show ?thesis using st True
      by (subst scan_select.simps) (auto simp: Let_def)
  qed
qed

lemma select_scan_open:
  "open_state code k a b c \<Longrightarrow> select_scan code k a b c = NotFound"
proof (induction "length code - k" arbitrary: k rule: less_induct)
  case less
  show ?case
  proof (cases "k < length code")
    case False
    then show ?thesis by (subst select_scan.simps) simp
  next
    case True
    note st = open_state_step [OF less.prems True]
    have "select_scan code (k + 1) a b c = NotFound"
      using st True by (intro less.hyps) auto
    then show ?thesis using st True
      by (subst select_scan.simps) (auto simp: Let_def)
  qed
qed

lemma index_of_None: "c \<notin> set xs \<Longrightarrow> index_of c xs = None"
  by (induction xs) auto

lemma skip_line_comment_no_newline: "NL \<notin> set (drop k code) \<Longrightarrow> skip_line_comment code k = length code"
  by (simp add: skip_line_comment_def py_find_def index_of_None)

lemma comment_to_end:
  assumes "k < length code" "code ! k = DQ" "NL \<notin> set (drop k code)"
  shows "select_scan code k False False False = CommentToEnd"
    and "scan_select code k False False False = Inr None"
    and "scan_read code k False False False = None"
proof -
  show "select_scan code k False False False = CommentToEnd"
    using assms by (subst select_scan.simps) (simp add: py_find_def index_of_None)
  have a: "scan_select code (length code) False False False = Inr None"
    by (subst scan_select.simps) simp
  show "scan_select code k False False False = Inr None"
    using assms a by (subst scan_select.simps) (simp add: skip_line_comment_no_newline)
  have b: "scan_read code (length code) False False False = None"
    by (subst scan_read.simps) simp
  show "scan_read code k False False False = None"
    using assms b by (subst scan_read.simps) (simp add: skip_line_comment_no_newline)
qed

text \<open>
  C9.  Every pass terminates on every input: the recursion of each main loop and of
  each scanner over the text is well-founded on every argument, and an iteration of a
  main loop that rewrites or skips a statement moves the cursor strictly forward,
  within the text.  Inside a literal or template that is never closed the scanners
  reach the end of the text and find nothing, and so they do in a comment with no
  newline after it; where the scanner finds nothing from the cursor, the pass returns
  the rest of the text from the cursor unchanged.
\<close>

theorem passes_terminate:
  "All process_select_loop_dom \<and> All process_sort_loop_dom \<and>
   All process_orderby_loop_dom \<and> All process_read_loop_dom \<and>
   All select_scan_dom \<and> All scan_select_dom \<and> All scan_read_dom \<and>
   All select_period_loop_dom \<and> All find_period_loop_dom \<and>
   (select_scan code i False False False = Found p1 \<and> select_find_statement_period code p1 = Some q1
      \<longrightarrow> i < q1 + 1 \<and> q1 + 1 \<le> length code) \<and>
   (scan_select code i False False False = Inr (Some p2) \<and> find_statement_period code p2 = Some q2
      \<longrightarrow> i < q2 + 1 \<and> q2 + 1 \<le> length code) \<and>
   (scan_read code i False False False = Some p3 \<and> find_statement_period code p3 = Some q3
      \<longrightarrow> i < q3 + 1 \<and> q3 + 1 \<le> length code) \<and>
   (open_state code k in_sq in_bt in_tpl
      \<longrightarrow> select_scan code k in_sq in_bt in_tpl = NotFound \<and>
          scan_select code k in_sq in_bt in_tpl = Inr None \<and>
          scan_read code k in_sq in_bt in_tpl = None) \<and>
   (m < length code \<and> code ! m = DQ \<and> NL \<notin> set (drop m code)
      \<longrightarrow> select_scan code m False False False = CommentToEnd \<and>
          scan_select code m False False False = Inr None \<and>
          scan_read code m False False False = None) \<and>
   ((\<forall>p. select_scan code j False False False \<noteq> Found p)
      \<longrightarrow> process_select_loop today code j parts = Inr (concat parts @ drop j code)) \<and>
   (scan_select code j False False False = Inr None
      \<longrightarrow> process_sort_loop today code j parts = Inr (concat parts @ drop j code) \<and>
          process_orderby_loop today code j parts = Inr (concat parts @ drop j code)) \<and>
   (scan_read code j False False False = None
      \<longrightarrow> process_read_loop today code j parts = Inr (concat parts @ drop j code))"
proof -
  have total: "All process_select_loop_dom \<and> All process_sort_loop_dom \<and>
      All process_orderby_loop_dom \<and> All process_read_loop_dom \<and>
      All select_scan_dom \<and> All scan_select_dom \<and> All scan_read_dom \<and>
      All select_period_loop_dom \<and> All find_period_loop_dom"
    by (intro conjI select_loop_total sort_loop_total orderby_loop_total read_loop_total
          select_scan_total scan_select_total scan_read_total select_period_loop_total
          find_period_loop_total)
  have p1: "select_scan code i False False False = Found p1 \<and> select_find_statement_period code p1 = Some q1
      \<longrightarrow> i < q1 + 1 \<and> q1 + 1 \<le> length code"
    by (auto dest!: select_scan_FoundD select_find_statement_period_SomeD)
  have p2: "scan_select code i False False False = Inr (Some p2) \<and> find_statement_period code p2 = Some q2
      \<longrightarrow> i < q2 + 1 \<and> q2 + 1 \<le> length code"
    by (auto dest!: scan_select_SomeD find_statement_period_SomeD)
  have p3: "scan_read code i False False False = Some p3 \<and> find_statement_period code p3 = Some q3
      \<longrightarrow> i < q3 + 1 \<and> q3 + 1 \<le> length code"
    by (auto dest!: scan_read_SomeD find_statement_period_SomeD)
  have o: "open_state code k in_sq in_bt in_tpl
      \<longrightarrow> select_scan code k in_sq in_bt in_tpl = NotFound \<and>
          scan_select code k in_sq in_bt in_tpl = Inr None \<and>
          scan_read code k in_sq in_bt in_tpl = None"
    by (simp add: select_scan_open scan_select_open scan_read_open)
  have c: "m < length code \<and> code ! m = DQ \<and> NL \<notin> set (drop m code)
      \<longrightarrow> select_scan code m False False False = CommentToEnd \<and>
          scan_select code m False False False = Inr None \<and>
          scan_read code m False False False = None"
    using comment_to_end [of m code] by blast
  have r1: "(\<forall>p. select_scan code j False False False \<noteq> Found p)
      \<longrightarrow> process_select_loop today code j parts = Inr (concat parts @ drop j code)"
    by (subst process_select_loop.simps) (auto split: scan_result.splits)
  have r2: "scan_select code j False False False = Inr None
      \<longrightarrow> process_sort_loop today code j parts = Inr (concat parts @ drop j code) \<and>
          process_orderby_loop today code j parts = Inr (concat parts @ drop j code)"
    by (subst process_sort_loop.simps, subst process_orderby_loop.simps) auto
  have r3: "scan_read code j False False False = None
      \<longrightarrow> process_read_loop today code j parts = Inr (concat parts @ drop j code)"
    by (subst process_read_loop.simps) auto
  from total p1 p2 p3 o c r1 r2 r3 show ?thesis by blast
qed

theorem passes_terminate_witness:
  \<open>select_scan ''SELECT SINGLE a. READ TABLE t. " c'' 0 False False False = Found 0 \<and>
   select_find_statement_period ''SELECT SINGLE a. READ TABLE t. " c'' 0 = Some 15 \<and>
   scan_select ''SELECT SINGLE a. READ TABLE t. " c'' 0 False False False = Inr (Some 0) \<and>
   find_statement_period ''SELECT SINGLE a. READ TABLE t. " c'' 0 = Some 15 \<and>
   scan_read ''SELECT SINGLE a. READ TABLE t. " c'' 0 False False False = Some 17 \<and>
   find_statement_period ''SELECT SINGLE a. READ TABLE t. " c'' 17 = Some 29 \<and>
   open_state ''SELECT SINGLE a. READ TABLE t. " c'' 0 True False False \<and>
   scan_read ''SELECT SINGLE a. READ TABLE t. " c'' 0 True False False = None \<and>
   ''SELECT SINGLE a. READ TABLE t. " c'' ! 31 = DQ \<and>
   NL \<notin> set (drop 31 ''SELECT SINGLE a. READ TABLE t. " c'') \<and>
   select_scan ''SELECT SINGLE a. READ TABLE t. " c'' 31 False False False = CommentToEnd \<and>
   (\<forall>p. select_scan ''SELECT SINGLE a. READ TABLE t. " c'' 18 False False False \<noteq> Found p) \<and>
   scan_select ''SELECT SINGLE a. READ TABLE t. " c'' 18 False False False = Inr None \<and>
   scan_read ''SELECT SINGLE a. READ TABLE t. " c'' 18 False False False = None \<and>
   process_select_loop ''2024-06-01'' ''SELECT SINGLE a. READ TABLE t. " c'' 18 [] = Inr ''EAD TABLE t. " c'' \<and>
   process_sort_loop ''2024-06-01'' ''SELECT SINGLE a. READ TABLE t. " c'' 18 [] = Inr ''EAD TABLE t. " c'' \<and>
   process_orderby_loop ''2024-06-01'' ''SELECT SINGLE a. READ TABLE t. " c'' 18 [] = Inr ''EAD TABLE t. " c'' \<and>
   process_read_loop ''2024-06-01'' ''SELECT SINGLE a. READ TABLE t. " c'' 18 [] = Inr ''EAD TABLE t. " c''\<close>
proof -
  let ?c = \<open>''SELECT SINGLE a. READ TABLE t. " c''\<close>
  have h1: "select_scan ?c 0 False False False = Found 0" by code_simp
  have h2: "select_find_statement_period ?c 0 = Some 15" by code_simp
  have h3: "scan_select ?c 0 False False False = Inr (Some 0)" by code_simp
  have h4: "find_statement_period ?c 0 = Some 15" by code_simp
  have h5: "scan_read ?c 0 False False False = Some 17" by code_simp
  have h6: "find_statement_period ?c 17 = Some 29" by code_simp
  have h7: "open_state ?c 0 True False False" by (simp add: open_state_def)
  have h8: "31 < length ?c \<and> ?c ! 31 = DQ \<and> NL \<notin> set (drop 31 ?c)" by simp
  have h9: "select_scan ?c 18 False False False = CommentToEnd" by code_simp
  have h10: "scan_select ?c 18 False False False = Inr None" by code_simp
  have h11: "scan_read ?c 18 False False False = None" by code_simp
  have h12: "\<forall>p. select_scan ?c 18 False False False \<noteq> Found p" using h9 by simp
  have d: "drop 18 ?c = ''EAD TABLE t. \" c''" by simp
  show ?thesis
    using h1 h2 h3 h4 h5 h6 h7 h8 h9 h10 h11 h12 d
      passes_terminate [where code = ?c and i = 0 and ?p1.0 = 0 and ?q1.0 = 15 and ?p2.0 = 0
        and ?q2.0 = 15 and ?p3.0 = 17 and ?q3.0 = 29 and k = 0 and in_sq = True and in_bt = False
        and in_tpl = False and m = 31 and j = 18 and today = "''2024-06-01''" and parts = "[]"]
    by simp
qed

section \<open>Names derived from the column list\<close>

text \<open>
  C8 on the code.  The docstring of \<open>split_fields\<close> in \<open>sort.py\<close> says that it ``drops
  complex expressions without alias'', and in a list with commas it does: from
  \<open>MAX( a ), b\<close> the pass derives \<open>SORT r BY b.\<close>  A list without commas is cut again at
  its blanks before the test for parentheses, so that the call \<open>MAX( a )\<close> falls into the
  pieces \<open>MAX(\<close>, \<open>a\<close> and \<open>)\<close>, and the argument \<open>a\<close> becomes the sort key.  The search
  for an alias runs before the test for parentheses as well and finds the \<open>AS\<close> inside
  \<open>CAST( x AS CHAR(10) )\<close>: the text \<open>CHAR(10)\<close> is copied into the \<open>SORT\<close> statement.
\<close>

theorem sort_key_from_unaliased_call:
  \<open>process_sort today ''SELECT MAX( a ) FROM t FOR ALL ENTRIES IN i WHERE k = i-k INTO TABLE r.'' =
     Inr (''SELECT MAX( a ) FROM t FOR ALL ENTRIES IN i WHERE k = i-k INTO TABLE r.'' @
          [NL] @ ''SORT r BY a.'' @ [NL] @ [DQ] @ '' Added By Pwc '' @ today @ [NL])
   \<and> process_sort today ''SELECT MAX( a ), b FROM t FOR ALL ENTRIES IN i WHERE k = i-k INTO TABLE r.'' =
     Inr (''SELECT MAX( a ), b FROM t FOR ALL ENTRIES IN i WHERE k = i-k INTO TABLE r.'' @
          [NL] @ ''SORT r BY b.'' @ [NL] @ [DQ] @ '' Added By Pwc '' @ today @ [NL])
   \<and> process_sort today
         ''SELECT CAST( x AS CHAR(10) ), b FROM t FOR ALL ENTRIES IN i WHERE k = i-k INTO TABLE r.'' =
     Inr (''SELECT CAST( x AS CHAR(10) ), b FROM t FOR ALL ENTRIES IN i WHERE k = i-k INTO TABLE r.'' @
          [NL] @ ''SORT r BY CHAR(10) b.'' @ [NL] @ [DQ] @ '' Added By Pwc '' @ today @ [NL])\<close>
proof (intro conjI)
  show \<open>process_sort today ''SELECT MAX( a ) FROM t FOR ALL ENTRIES IN i WHERE k = i-k INTO TABLE r.'' =
     Inr (''SELECT MAX( a ) FROM t FOR ALL ENTRIES IN i WHERE k = i-k INTO TABLE r.'' @
          [NL] @ ''SORT r BY a.'' @ [NL] @ [DQ] @ '' Added By Pwc '' @ today @ [NL])\<close>
    by (code_simp; simp add: pwc_tag_line_def)
  show \<open>process_sort today ''SELECT MAX( a ), b FROM t FOR ALL ENTRIES IN i WHERE k = i-k INTO TABLE r.'' =
     Inr (''SELECT MAX( a ), b FROM t FOR ALL ENTRIES IN i WHERE k = i-k INTO TABLE r.'' @
          [NL] @ ''SORT r BY b.'' @ [NL] @ [DQ] @ '' Added By Pwc '' @ today @ [NL])\<close>
    by (code_simp; simp add: pwc_tag_line_def)
  show \<open>process_sort today
         ''SELECT CAST( x AS CHAR(10) ), b FROM t FOR ALL ENTRIES IN i WHERE k = i-k INTO TABLE r.'' =
     Inr (''SELECT CAST( x AS CHAR(10) ), b FROM t FOR ALL ENTRIES IN i WHERE k = i-k INTO TABLE r.'' @
          [NL] @ ''SORT r BY CHAR(10) b.'' @ [NL] @ [DQ] @ '' Added By Pwc '' @ today @ [NL])\<close>
    by (code_simp; simp add: pwc_tag_line_def)
qed

text \<open>
  C8 for the Explicit-Order pass: \<open>orderby.py\<close> has no step that drops an item, and the
  call \<open>COUNT(*)\<close>, which has no alias, is copied into the clause, \<open>ORDER BY COUNT(*)\<close>.
\<close>

theorem orderby_keeps_expression_counterexample:
  \<open>process_orderby ''2024-06-01'' ''SELECT COUNT(*) FROM t.'' =
     Inr ([DQ] @ '' Added By Pwc 2024-06-01'' @ [NL] @ ''SELECT COUNT(*) FROM t ORDER BY COUNT(*).'')\<close>
  by code_simp

section \<open>The scenarios of the specification\<close>

text \<open>
  C4.  The Bounded-Lookup pass on \<open>SELECT SINGLE f1 FROM t WHERE k = 1.\<close>: the output is
  the tag line (a double quote, \<open> Added By Pwc \<close>, the date, a newline), then the
  statement with the field list unchanged, \<open>SINGLE\<close> removed and \<open>UP TO 1 ROWS\<close>
  immediately before \<open>WHERE\<close>, its period kept, then a new line \<open>ENDSELECT.\<close>; this holds
  for every date.
\<close>

theorem scenario_A_bounded_lookup:
  \<open>process_select today ''SELECT SINGLE f1 FROM t WHERE k = 1.'' =
     Inr ([DQ] @ '' Added By Pwc '' @ today @ [NL] @
          ''SELECT f1 FROM t UP TO 1 ROWS WHERE k = 1.'' @ [NL] @ ''ENDSELECT.'')\<close>
  by (code_simp; simp add: pwc_tag_line_def)

text \<open>
  Scenario B with a text after the statement.  The statement holds no quote, comment
  mark or template bar, so its period is found whatever follows it.
\<close>

definition plain_char :: "char \<Rightarrow> bool" where
  "plain_char c = (c \<noteq> DQ \<and> c \<noteq> CHR ''*'' \<and> c \<noteq> SQ \<and> c \<noteq> BQ \<and> c \<noteq> CHR ''|'' \<and> c \<noteq> CHR ''.'')"

abbreviation scenario_B_text :: string where
  "scenario_B_text \<equiv>
     ''SELECT a, b FROM t FOR ALL ENTRIES IN itab WHERE k = itab-k INTO TABLE @DATA(result).''"

lemma find_period_loop_plain:
  "i \<le> p \<Longrightarrow> p < length s \<Longrightarrow> s ! p = CHR ''.'' \<Longrightarrow> (\<And>j. i \<le> j \<Longrightarrow> j < p \<Longrightarrow> plain_char (s ! j))
     \<Longrightarrow> find_period_loop s i False False False = Some p"
proof (induction "p - i" arbitrary: i)
  case 0
  then have "i = p" by simp
  then show ?case using 0 by (subst find_period_loop.simps) simp
next
  case (Suc d)
  then have lt: "i < p" by simp
  then have pc: "plain_char (s ! i)" using Suc.prems by simp
  have "find_period_loop s (i + 1) False False False = Some p"
    using Suc lt by (intro Suc.hyps) auto
  then show ?case using lt Suc.prems(2) pc
    by (subst find_period_loop.simps) (simp add: plain_char_def)
qed

lemma plain_prefix:
  "list_all plain_char (take p a) \<Longrightarrow> p \<le> length a \<Longrightarrow> j < p \<Longrightarrow> plain_char ((a @ b) ! j)"
  by (simp add: list_all_length nth_append)

lemma scenario_B_period: "find_statement_period (scenario_B_text @ rest) 0 = Some 84"
proof -
  have pl: "list_all plain_char (take 84 scenario_B_text)" by code_simp
  have "\<And>j. j < 84 \<Longrightarrow> plain_char ((scenario_B_text @ rest) ! j)"
    using plain_prefix [OF pl] by simp
  then show ?thesis unfolding find_statement_period_def
    by (intro find_period_loop_plain) (simp_all add: nth_append)
qed

lemma line_start_of_0: "line_start_of s 0 = 0"
  by (simp add: line_start_of_def py_rfind_def)

lemma get_line_indent_before_0: "get_line_indent_before s 0 = Inr []"
  by (simp add: get_line_indent_before_def line_start_of_0) (subst indent_loop.simps, simp)

lemma scenario_B_scan: "scan_select (scenario_B_text @ rest) 0 False False False = Inr (Some 0)"
  apply (subst scan_select.simps)
  apply (simp add: Let_def at_statement_lead_def line_start_of_0 slice_def)
  apply (subst blank_run_end.simps)
  apply simp
  by code_simp

lemma scenario_B_insertion:
  assumes "\<not> is_sort_immediately_next_for_target (scenario_B_text @ rest) 84 ''result''"
  shows "sort_insertion today (scenario_B_text @ rest) 0 84 =
           Inr ([NL] @ ''SORT result BY a b.'' @ [NL] @ [DQ] @ '' Added By Pwc '' @ today @ [NL])"
proof -
  let ?st = "''SELECT a, b FROM t FOR ALL ENTRIES IN itab WHERE k = itab-k INTO TABLE @DATA(result)''"
  have sl: "slice (scenario_B_text @ rest) 0 84 = ?st" by (simp add: slice_def)
  have f: "sort_has_for_all_entries ?st" by code_simp
  have t: "extract_target_table ?st = Some ''result''" by code_simp
  have fl: "sort_split_fields (extract_select_list ?st) = Inr [''a'', ''b'']" by code_simp
  have st: "py_strip ''a'' \<noteq> ''*''" "py_strip ''b'' \<noteq> ''*''" by code_simp+
  show ?thesis
    unfolding sort_insertion_def sl Let_def
    using assms by (simp add: f t fl st get_line_indent_before_0 pwc_tag_line_def)
qed

text \<open>
  C5, as amended.  The Pre-Sort-For-Bulk-Lookup pass on the query of scenario B.  When
  the query is the whole text, the output is the query followed by a newline, the line
  \<open>SORT result BY a b.\<close> and the tag line (a double quote, \<open> Added By Pwc \<close>, the date, a
  newline).  When a text \<open>rest\<close> follows the query and the next executable line is not a
  \<open>SORT\<close> of \<open>result\<close> (the test of the pass, \<open>is_sort_immediately_next_for_target\<close> at
  the period, position 84), the output is the query, the same two lines, and then a
  text that holds \<open>rest\<close> as a subsequence: what follows is inserted into at most, never
  edited.  The field names are those of the query, in the case the query writes them.
\<close>

theorem scenario_B_presort:
  \<open>process_sort today
       ''SELECT a, b FROM t FOR ALL ENTRIES IN itab WHERE k = itab-k INTO TABLE @DATA(result).'' =
     Inr (''SELECT a, b FROM t FOR ALL ENTRIES IN itab WHERE k = itab-k INTO TABLE @DATA(result).'' @
          [NL] @ ''SORT result BY a b.'' @ [NL] @ [DQ] @ '' Added By Pwc '' @ today @ [NL])
   \<and> (\<not> is_sort_immediately_next_for_target
           (''SELECT a, b FROM t FOR ALL ENTRIES IN itab WHERE k = itab-k INTO TABLE @DATA(result).'' @ rest)
           84 ''result'' \<longrightarrow>
        (\<exists>r. process_sort today
               (''SELECT a, b FROM t FOR ALL ENTRIES IN itab WHERE k = itab-k INTO TABLE @DATA(result).'' @ rest) =
             Inr (''SELECT a, b FROM t FOR ALL ENTRIES IN itab WHERE k = itab-k INTO TABLE @DATA(result).'' @
                  [NL] @ ''SORT result BY a b.'' @ [NL] @ [DQ] @ '' Added By Pwc '' @ today @ [NL] @ r)
           \<and> subseq rest r))\<close>
proof (intro conjI impI)
  show "process_sort today scenario_B_text =
     Inr (scenario_B_text @ [NL] @ ''SORT result BY a b.'' @ [NL] @ [DQ] @ '' Added By Pwc '' @ today @ [NL])"
    by (code_simp; simp add: pwc_tag_line_def)
next
  assume ns: "\<not> is_sort_immediately_next_for_target (scenario_B_text @ rest) 84 ''result''"
  define code where "code = scenario_B_text @ rest"
  define ins where "ins = [NL] @ ''SORT result BY a b.'' @ [NL] @ [DQ] @ '' Added By Pwc '' @ today @ [NL]"
  define parts where "parts = [] @ [slice code 0 0] @ [slice code 0 (84 + 1) @ ins]"
  have sc: "scan_select code 0 False False False = Inr (Some 0)"
    unfolding code_def by (rule scenario_B_scan)
  have pe: "find_statement_period code 0 = Some 84" unfolding code_def by (rule scenario_B_period)
  have si: "sort_insertion today code 0 84 = Inr ins"
    unfolding code_def ins_def using scenario_B_insertion [OF ns] by simp
  have len: "0 < length code" by (simp add: code_def)
  obtain r where r: "process_sort_loop today code (84 + 1) parts = Inr (concat parts @ r)"
      "subseq (drop (84 + 1) code) r"
    using process_sort_loop_frame [of today code "84 + 1" parts] by blast
  have "process_sort_loop today code 0 [] = process_sort_loop today code (84 + 1) parts"
    by (subst process_sort_loop.simps) (simp only: len sc pe si parts_def if_True sum.case option.case)
  then have out: "process_sort today code = Inr (concat parts @ r)"
    using r(1) by (simp add: process_sort_def)
  have cp: "concat parts = scenario_B_text @ ins" by (simp add: parts_def code_def slice_def)
  have dr: "drop (84 + 1) code = rest" by (simp add: code_def)
  have "process_sort today (scenario_B_text @ rest) = Inr (scenario_B_text @ ins @ r)"
    using out cp by (simp add: code_def)
  moreover have "subseq rest r" using r(2) dr by simp
  ultimately show "\<exists>r. process_sort today (scenario_B_text @ rest) =
               Inr (scenario_B_text @ [NL] @ ''SORT result BY a b.'' @ [NL] @ [DQ] @
                    '' Added By Pwc '' @ today @ [NL] @ r)
             \<and> subseq rest r"
    unfolding ins_def by (intro exI [of _ r]) simp
qed

theorem scenario_B_presort_witness:
  \<open>\<not> is_sort_immediately_next_for_target
        (''SELECT a, b FROM t FOR ALL ENTRIES IN itab WHERE k = itab-k INTO TABLE @DATA(result).'' @
         [NL] @ ''WRITE x.'') 84 ''result''
   \<and> (\<exists>r. process_sort ''2024-06-01''
             (''SELECT a, b FROM t FOR ALL ENTRIES IN itab WHERE k = itab-k INTO TABLE @DATA(result).'' @
              [NL] @ ''WRITE x.'') =
           Inr (''SELECT a, b FROM t FOR ALL ENTRIES IN itab WHERE k = itab-k INTO TABLE @DATA(result).'' @
                [NL] @ ''SORT result BY a b.'' @ [NL] @ [DQ] @ '' Added By Pwc '' @ ''2024-06-01'' @ [NL] @ r)
         \<and> subseq ([NL] @ ''WRITE x.'') r)
   \<and> process_sort ''2024-06-01''
         (''SELECT a, b FROM t FOR ALL ENTRIES IN itab WHERE k = itab-k INTO TABLE @DATA(result).'' @
          [NL] @ ''WRITE x.'') =
       Inr (''SELECT a, b FROM t FOR ALL ENTRIES IN itab WHERE k = itab-k INTO TABLE @DATA(result).'' @
            [NL] @ ''SORT result BY a b.'' @ [NL] @ [DQ] @ '' Added By Pwc 2024-06-01'' @ [NL] @
            [NL] @ ''WRITE x.'')\<close>
proof -
  have h: "\<not> is_sort_immediately_next_for_target (scenario_B_text @ [NL] @ ''WRITE x.'') 84 ''result''"
    by code_simp
  have v: "process_sort ''2024-06-01'' (scenario_B_text @ [NL] @ ''WRITE x.'') =
       Inr (scenario_B_text @ [NL] @ ''SORT result BY a b.'' @ [NL] @ [DQ] @
            '' Added By Pwc 2024-06-01'' @ [NL] @ [NL] @ ''WRITE x.'')"
    by code_simp
  show ?thesis using h v scenario_B_presort [of "''2024-06-01''" "[NL] @ ''WRITE x.''"] by blast
qed

text \<open>
  The hypothesis of the second part is the one the pass applies: with a \<open>SORT\<close> of
  \<open>result\<close> on the next line, the text is returned as it is.
\<close>

lemma scenario_B_already_sorted:
  \<open>process_sort today
       (''SELECT a, b FROM t FOR ALL ENTRIES IN itab WHERE k = itab-k INTO TABLE @DATA(result).'' @
        [NL] @ ''SORT result BY a b.'') =
     Inr (''SELECT a, b FROM t FOR ALL ENTRIES IN itab WHERE k = itab-k INTO TABLE @DATA(result).'' @
          [NL] @ ''SORT result BY a b.'')\<close>
  by code_simp

text \<open>
  C5, as stated, fails: the inserted line is not \<open>SORT result BY A B.\<close>, the pass does
  not turn the field names into upper case.
\<close>

theorem scenario_B_upper_case_counterexample:
  \<open>process_sort ''2024-06-01''
       ''SELECT a, b FROM t FOR ALL ENTRIES IN itab WHERE k = itab-k INTO TABLE @DATA(result).'' \<noteq>
     Inr (''SELECT a, b FROM t FOR ALL ENTRIES IN itab WHERE k = itab-k INTO TABLE @DATA(result).'' @
          [NL] @ ''SORT result BY A B.'' @ [NL] @ [DQ] @ '' Added By Pwc 2024-06-01'' @ [NL])\<close>
  by code_simp

text \<open>
  C6, as amended.  The Explicit-Order pass on \<open>SELECT a FROM t WHERE k = 1.\<close>: the output
  is the tag line (a double quote, \<open> Added By Pwc \<close>, the date, a newline) and then the
  statement with \<open>ORDER BY a\<close> after the \<open>WHERE\<close> clause, before the period; the field
  name keeps the case of the query.
\<close>

theorem scenario_C_order_by:
  \<open>process_orderby today ''SELECT a FROM t WHERE k = 1.'' =
     Inr ([DQ] @ '' Added By Pwc '' @ today @ [NL] @ ''SELECT a FROM t WHERE k = 1 ORDER BY a.'')\<close>
  by (code_simp; simp add: pwc_tag_line_def)

text \<open>C6, as stated, fails: the clause put in is not \<open>ORDER BY A\<close>.\<close>

theorem scenario_C_upper_case_counterexample:
  \<open>process_orderby ''2024-06-01'' ''SELECT a FROM t WHERE k = 1.'' \<noteq>
     Inr ([DQ] @ '' Added By Pwc 2024-06-01'' @ [NL] @ ''SELECT a FROM t WHERE k = 1 ORDER BY A.'')\<close>
  by code_simp



section \<open>Quoted text and idempotence\<close>

text \<open>
  C2 on the code.  \<open>has_for_all_entries\<close> of \<open>sort.py\<close> searches the whole statement, so
  the phrase \<open>for all entries\<close> inside a single-quoted literal triggers the insertion of
  a \<open>SORT\<close>; the same statement with another literal is left as it is.
\<close>

theorem quoted_phrase_triggers_sort:
  \<open>process_sort ''2024-06-01''
       (''SELECT a FROM t INTO TABLE r WHERE x = '' @ [SQ] @ ''for all entries'' @ [SQ] @ ''.'') =
     Inr (''SELECT a FROM t INTO TABLE r WHERE x = '' @ [SQ] @ ''for all entries'' @ [SQ] @ ''.'' @
          [NL] @ ''SORT r BY a.'' @ [NL] @ [DQ] @ '' Added By Pwc 2024-06-01'' @ [NL])
   \<and> process_sort ''2024-06-01''
       (''SELECT a FROM t INTO TABLE r WHERE x = '' @ [SQ] @ ''for all entrieX'' @ [SQ] @ ''.'') =
     Inr (''SELECT a FROM t INTO TABLE r WHERE x = '' @ [SQ] @ ''for all entrieX'' @ [SQ] @ ''.'')\<close>
  by code_simp

text \<open>
  C1 on the code.  A \<open>READ TABLE\<close> that follows another statement on its line gets its
  \<open>SORT\<close> in the middle of that line; on the second run the previous executable line does
  not start with \<open>SORT\<close>, and a second \<open>SORT\<close> is inserted: the pipeline is not idempotent
  on this input.
\<close>

theorem remediate_twice_inserts_again:
  \<open>remediate ''2024-06-01'' ''CLEAR wa. READ TABLE itab INDEX 1.'' =
     Inr (''CLEAR wa. SORT itab.'' @ [NL] @ [DQ] @ '' Added By Pwc 2024-06-01'' @ [NL] @ ''READ TABLE itab INDEX 1.'')
   \<and> remediate ''2024-06-01''
        (''CLEAR wa. SORT itab.'' @ [NL] @ [DQ] @ '' Added By Pwc 2024-06-01'' @ [NL] @ ''READ TABLE itab INDEX 1.'') =
     Inr (''CLEAR wa. SORT itab.'' @ [NL] @ [DQ] @ '' Added By Pwc 2024-06-01'' @ [NL] @
          ''SORT itab.'' @ [NL] @ [DQ] @ '' Added By Pwc 2024-06-01'' @ [NL] @ ''READ TABLE itab INDEX 1.'')\<close>
  by code_simp

end
